theory Spec2Isabelle
  imports Complex_Main "HOL-Library.Sublist"
begin

text \<open>
  A model of the waitlist application: the referral code generator, the two API
  endpoints and the submit handler of the form. Conventions:
  \<^item> an endpoint is a function of its surroundings (the process and the hosted services)
    and of the request; it returns the HTTP answer and the list of its effects in the
    order in which the code performs them. \<^verbatim>\<open>await\<close> is plain sequencing;
  \<^item> a \<^verbatim>\<open>throw\<close> is a value of type \<open>thrown\<close>, and every \<^verbatim>\<open>try\<close>/\<^verbatim>\<open>catch\<close> of
    the source is a case distinction on it;
  \<^item> a log record keeps its level, source and message; its context object, the
    timestamp and the per-request identifier are left out;
  \<^item> strings are lists of 8-bit characters, and JSON numbers are integers.
\<close>

section \<open>Referral code generator (src/lib/utils.ts)\<close>

text \<open>
  \<^verbatim>\<open>const REFERRAL_CODE_CHARSET = 'ABCDEFGHJKLMNPQRSTUVWXYZ23456789';\<close>
\<close>

definition REFERRAL_CODE_CHARSET :: string where
  "REFERRAL_CODE_CHARSET = ''ABCDEFGHJKLMNPQRSTUVWXYZ23456789''"

text \<open>
  \<^verbatim>\<open>code += REFERRAL_CODE_CHARSET[index]\<close>: indexing a JavaScript string inside its range
  gives the one-character string at that position; outside the range it gives
  \<^verbatim>\<open>undefined\<close>, which \<^verbatim>\<open>+=\<close> appends as the text "undefined".
\<close>

definition charset_at :: "string \<Rightarrow> int \<Rightarrow> string" where
  "charset_at s index =
     (if 0 \<le> index \<and> index < int (length s) then [s ! nat index] else ''undefined'')"

text \<open>
  \<^verbatim>\<open>
  for (let i = 0; i < length; i++) {
    const index = Math.floor(Math.random() * charsetLength);
    code += REFERRAL_CODE_CHARSET[index];
  }
  \<close>
  The values that the successive calls of \<^verbatim>\<open>Math.random()\<close> return are the sequence
  \<open>rnd\<close>: iteration \<open>i\<close> consumes \<open>rnd i\<close>. The requested length is an integer
  (a negative one runs the loop zero times). The product with the charset length 32 is
  exact in binary floating point, so the real-number product is what the code computes.
\<close>

function generateCode_loop :: "(nat \<Rightarrow> real) \<Rightarrow> int \<Rightarrow> int \<Rightarrow> string \<Rightarrow> string" where
  "generateCode_loop rnd len i code =
     (if i < len
      then generateCode_loop rnd len (i + 1)
             (code @ charset_at REFERRAL_CODE_CHARSET
                       \<lfloor>rnd (nat i) * real (length REFERRAL_CODE_CHARSET)\<rfloor>)
      else code)"
  by pat_completeness auto
termination
  by (relation "measure (\<lambda>(rnd, len, i, code). nat (len - i))") auto

declare generateCode_loop.simps [simp del]

definition generateCode :: "(nat \<Rightarrow> real) \<Rightarrow> int \<Rightarrow> string" where
  "generateCode rnd len = generateCode_loop rnd len 0 ''''"

text \<open>The alphabet as the specification words it: uppercase letters and digits without
  the easily confused I, O, 0 and 1.\<close>

definition unambiguous_alphabet :: string where
  "unambiguous_alphabet =
     filter (\<lambda>c. c \<notin> set ''IO01'') (''ABCDEFGHIJKLMNOPQRSTUVWXYZ'' @ ''0123456789'')"

text \<open>What \<^verbatim>\<open>Math.random()\<close> promises: a value in the half-open unit interval.\<close>

definition unit_draws :: "(nat \<Rightarrow> real) \<Rightarrow> bool" where
  "unit_draws rnd = (\<forall>k. 0 \<le> rnd k \<and> rnd k < 1)"

section \<open>JavaScript values, thrown values and strings\<close>

text \<open>
  The values a parsed JSON document can hold, with \<^verbatim>\<open>undefined\<close> for a property that
  is not there. Numbers are restricted to integers. An object is the list of its
  properties; the first binding of a key is the one a property read sees.
\<close>

datatype jsval =
    JUndefined
  | JNull
  | JBool bool
  | JNum int
  | JStr string
  | JArr "jsval list"
  | JObj "(string \<times> jsval) list"

fun truthy :: "jsval \<Rightarrow> bool" where
  "truthy JUndefined = False"
| "truthy JNull = False"
| "truthy (JBool b) = b"
| "truthy (JNum n) = (n \<noteq> 0)"
| "truthy (JStr s) = (s \<noteq> [])"
| "truthy (JArr xs) = True"
| "truthy (JObj kvs) = True"

text \<open>
  What a \<^verbatim>\<open>throw\<close> (or a rejected promise) carries: an \<^verbatim>\<open>Error\<close> instance with its
  name and message, a bare string, or any other value.
\<close>

datatype thrown = ErrorObj string string | ThrownString string | ThrownOther

text \<open>
  Reading a property, \<^verbatim>\<open>v.key\<close> or \<^verbatim>\<open>const { key } = v\<close>: on \<^verbatim>\<open>null\<close> and
  \<^verbatim>\<open>undefined\<close> the runtime throws a TypeError (the wording of its message is the
  engine's and differs between a property read and a destructuring; the model fixes
  one wording, and no property below depends on it); on an object the property or \<^verbatim>\<open>undefined\<close>; on every other value
  \<^verbatim>\<open>undefined\<close>, since none of the keys this program reads (email, firstname, name,
  referredBy, error, code) is a built-in property of a string, number, boolean or array.
\<close>

definition nullish_read :: "string \<Rightarrow> thrown" where
  "nullish_read key = ErrorObj ''TypeError'' (''Cannot read property '' @ key @ '' of null or undefined'')"

fun get_prop :: "jsval \<Rightarrow> string \<Rightarrow> thrown + jsval" where
  "get_prop JUndefined key = Inl (nullish_read key)"
| "get_prop JNull key = Inl (nullish_read key)"
| "get_prop (JObj kvs) key = Inr (case map_of kvs key of None \<Rightarrow> JUndefined | Some v \<Rightarrow> v)"
| "get_prop v key = Inr JUndefined"

text \<open>\<^verbatim>\<open>getErrorMessage\<close> of src/lib/logger.ts.\<close>

fun getErrorMessage :: "thrown \<Rightarrow> string" where
  "getErrorMessage (ErrorObj nm msg) = msg"
| "getErrorMessage (ThrownString s) = s"
| "getErrorMessage ThrownOther = ''Unknown error occurred''"

text \<open>\<^verbatim>\<open>s.split(sep)\<close> for a one-character separator: never an empty array.\<close>

fun split_on :: "char \<Rightarrow> string \<Rightarrow> string list" where
  "split_on sep [] = [[]]"
| "split_on sep (c # cs) =
     (if c = sep then [] # split_on sep cs
      else (case split_on sep cs of [] \<Rightarrow> [[c]] | w # ws \<Rightarrow> (c # w) # ws))"

text \<open>\<^verbatim>\<open>xs[0]\<close> of an array of strings: \<^verbatim>\<open>undefined\<close> when the array is empty.\<close>

fun first_elem :: "string list \<Rightarrow> jsval" where
  "first_elem [] = JUndefined"
| "first_elem (w # ws) = JStr w"

text \<open>
  White space as \<^verbatim>\<open>\s\<close> and \<^verbatim>\<open>trim()\<close> see it, among the 8-bit characters: tab, line
  feed, vertical tab, form feed, carriage return, space and the no-break space.
\<close>

definition is_space :: "char \<Rightarrow> bool" where
  "is_space c = (c \<in> set [CHR 0x09, CHR 0x0A, CHR 0x0B, CHR 0x0C, CHR 0x0D, CHR 0x20, CHR 0xA0])"

definition trim :: "string \<Rightarrow> string" where
  "trim s = rev (dropWhile is_space (rev (dropWhile is_space s)))"

section \<open>Structured logger (src/lib/logger.ts)\<close>

datatype LogLevel = Lerror | Lwarn | Linfo | Ldebug

section \<open>The services behind the endpoints\<close>

text \<open>The properties of a waitlist record, as \<^verbatim>\<open>notion.pages.create\<close> receives them: the
  title text of Name, the Email, the text of Referral Code, the rich-text array of
  Referred By and the page ids of the Referrer relation.\<close>

record page_properties =
  Name :: jsval
  Email :: jsval
  Referral_Code :: string
  Referred_By :: "jsval list"
  Referrer :: "string list"

record page =
  page_id :: string
  properties :: page_properties

text \<open>\<^verbatim>\<open>ratelimit.limit(key)\<close> answers with \<^verbatim>\<open>{ success, limit, remaining }\<close>.\<close>

record RatelimitResponse =
  success :: bool
  limit :: nat
  remaining :: nat

text \<open>\<^verbatim>\<open>resend.emails.send\<close> answers with \<^verbatim>\<open>{ data, error }\<close>: the id of the message or
  null, and an error with its name and message or null.\<close>

datatype ErrorResponse = ErrorResponse (error_name: string) (error_message: string)

record CreateEmailResponse =
  data :: "string option"
  error :: "ErrorResponse option"

text \<open>
  Everything an endpoint sees of its process and of the hosted services. The document
  store holds \<open>pages\<close>; each of its three calls can throw instead of answering
  (\<open>email_query_error\<close>, \<open>code_query_error\<close>, \<open>create_error\<close>), and a created page
  gets the id \<open>page_ids n\<close> where \<open>n\<close> pages existed before. The rate limiter and the
  email provider are black boxes: \<open>ratelimit_limit key\<close> and \<open>resend_send\<close> are what
  their calls answer, or what they throw. \<open>random\<close> is the run of values the next
  calls of \<^verbatim>\<open>Math.random()\<close> return.
\<close>

record server_env =
  isDev :: bool
  random :: "nat \<Rightarrow> real"
  pages :: "page list"
  page_ids :: "nat \<Rightarrow> string"
  email_query_error :: "thrown option"
  code_query_error :: "thrown option"
  create_error :: "thrown option"
  ratelimit_limit :: "string \<Rightarrow> thrown + RatelimitResponse"
  resend_send :: "thrown + CreateEmailResponse"
  RESEND_FROM_EMAIL :: "string option"

text \<open>
  What an endpoint does besides answering, in order: a log record (level, source,
  message), a query of the store (property, value to equal), the creation of a page,
  a call of the rate limiter (tokens and window of its policy, key) and the dispatch of an
  email (from, to, subject, first name given to the template).
\<close>

datatype event =
    Log LogLevel string string
  | NotionQuery string jsval
  | NotionCreate page_properties
  | RatelimitLimit nat string string
  | ResendSend string jsval string jsval

fun is_log :: "event \<Rightarrow> bool" where
  "is_log (Log lvl src msg) = True"
| "is_log e = False"

text \<open>The calls that leave the endpoint for a hosted service, logging left out.\<close>

definition downstream :: "event list \<Rightarrow> event list" where
  "downstream evs = filter (\<lambda>e. \<not> is_log e) evs"

fun is_store_call :: "event \<Rightarrow> bool" where
  "is_store_call (NotionQuery p v) = True"
| "is_store_call (NotionCreate ps) = True"
| "is_store_call e = False"

fun is_create :: "event \<Rightarrow> bool" where
  "is_create (NotionCreate ps) = True"
| "is_create e = False"

fun is_send :: "event \<Rightarrow> bool" where
  "is_send (ResendSend f t s n) = True"
| "is_send e = False"

fun is_limit :: "event \<Rightarrow> bool" where
  "is_limit (RatelimitLimit n w k) = True"
| "is_limit e = False"

text \<open>\<^verbatim>\<open>logger.debug\<close> writes only in development mode; the other levels always write.\<close>

definition logger_debug :: "server_env \<Rightarrow> string \<Rightarrow> string \<Rightarrow> event list" where
  "logger_debug env source message = (if isDev env then [Log Ldebug source message] else [])"

text \<open>
  Modelled from the spec: the client of the document store, an external library of
  which the repository holds only the calls. Its interface is
  \<^verbatim>\<open>query(database, filter)\<close>, a result set, and \<^verbatim>\<open>createRecord(database, properties)\<close>,
  a record with an id.

  \<^verbatim>\<open>notion.databases.query({ filter: { property, ... equals } })\<close>: the records whose
  property equals the value, or the error the store throws.
\<close>

definition query_email :: "server_env \<Rightarrow> jsval \<Rightarrow> thrown + page list" where
  "query_email env v =
     (case email_query_error env of
        Some e \<Rightarrow> Inl e
      | None \<Rightarrow> Inr (filter (\<lambda>p. Email (properties p) = v) (pages env)))"

definition query_code :: "server_env \<Rightarrow> jsval \<Rightarrow> thrown + page list" where
  "query_code env v =
     (case code_query_error env of
        Some e \<Rightarrow> Inl e
      | None \<Rightarrow> Inr (filter (\<lambda>p. JStr (Referral_Code (properties p)) = v) (pages env)))"

text \<open>\<^verbatim>\<open>notion.pages.create\<close>: the new page, appended to the store, or the error thrown.\<close>

definition pages_create :: "server_env \<Rightarrow> page_properties \<Rightarrow> (thrown + page) \<times> server_env" where
  "pages_create env props =
     (case create_error env of
        Some e \<Rightarrow> (Inl e, env)
      | None \<Rightarrow>
          (let p = \<lparr>page_id = page_ids env (length (pages env)), properties = props\<rparr>
           in (Inr p, env\<lparr>pages := pages env @ [p]\<rparr>)))"

text \<open>An HTTP answer built by \<^verbatim>\<open>NextResponse.json(body, { status })\<close>.\<close>

record response =
  status :: nat
  body :: jsval

text \<open>An incoming request: the two headers the mail endpoint reads, and what
  \<^verbatim>\<open>await request.json()\<close> gives: the parsed body, or the error thrown when the body is
  not JSON.\<close>

record request =
  x_forwarded_for :: "string option"
  x_real_ip :: "string option"
  json :: "thrown + jsval"

section \<open>Waitlist enrollment endpoint (src/app/api/notion/route.ts)\<close>

definition email_required :: response where
  "email_required = \<lparr>status = 400, body = JObj [(''error'', JStr ''Email is required'')]\<rparr>"

definition already_on_waitlist :: response where
  "already_on_waitlist =
     \<lparr>status = 409, body = JObj [(''error'', JStr ''You're already on the waitlist!'')]\<rparr>"

definition added_to_waitlist :: "string \<Rightarrow> string \<Rightarrow> response" where
  "added_to_waitlist code notionId =
     \<lparr>status = 200,
      body = JObj [(''success'', JBool True), (''message'', JStr ''Added to waitlist''),
                   (''code'', JStr code), (''notionId'', JStr notionId)]\<rparr>"

text \<open>The \<^verbatim>\<open>catch\<close> block at the boundary of the endpoint.\<close>

definition notion_catch :: "thrown \<Rightarrow> response \<times> event list" where
  "notion_catch e =
     (\<lparr>status = 500,
       body = JObj [(''error'', JStr ''Failed to save to Notion''),
                    (''details'', JStr (getErrorMessage e)), (''success'', JBool False)]\<rparr>,
      [Log Lerror ''notion-api'' ''Error processing waitlist submission''])"

text \<open>
  The inner \<^verbatim>\<open>try\<close>/\<^verbatim>\<open>catch\<close> that resolves the referrer: \<^verbatim>\<open>referrerPageId\<close> stays
  \<^verbatim>\<open>null\<close> unless the query answers with at least one record; an error thrown by the
  query is logged and goes no further.
\<close>

definition lookup_referrer :: "server_env \<Rightarrow> jsval \<Rightarrow> string option \<times> event list" where
  "lookup_referrer env referredBy =
     (if truthy referredBy then
        (let t = logger_debug env ''notion-api'' ''Looking up referrer''
                   @ [NotionQuery ''Referral Code'' referredBy]
         in case query_code env referredBy of
              Inl e \<Rightarrow> (None, t @ [Log Lerror ''notion-api'' ''Error looking up referrer''])
            | Inr results \<Rightarrow>
                (case results of
                   [] \<Rightarrow> (None, t @ [Log Lwarn ''notion-api'' ''Referrer not found''])
                 | r # rs \<Rightarrow> (Some (page_id r), t @ logger_debug env ''notion-api'' ''Found referrer'')))
      else (None, []))"

text \<open>\<^verbatim>\<open>firstname || email.split("@")[0]\<close>; a truthy email that is not a string has no
  \<^verbatim>\<open>split\<close> method, and calling it throws.\<close>

definition entry_name :: "jsval \<Rightarrow> jsval \<Rightarrow> thrown + jsval" where
  "entry_name firstname email =
     (if truthy firstname then Inr firstname
      else (case email of
              JStr s \<Rightarrow> Inr (first_elem (split_on CHR ''@'' s))
            | _ \<Rightarrow> Inl (ErrorObj ''TypeError'' ''email.split is not a function'')))"

definition entry_properties ::
    "jsval \<Rightarrow> jsval \<Rightarrow> string \<Rightarrow> jsval \<Rightarrow> string option \<Rightarrow> page_properties" where
  "entry_properties nm email code referredBy referrerPageId =
     \<lparr>Name = nm, Email = email, Referral_Code = code,
      Referred_By = (if truthy referredBy then [referredBy] else []),
      Referrer = (case referrerPageId of
                    None \<Rightarrow> []
                  | Some pid \<Rightarrow> if pid \<noteq> [] then [pid] else [])\<rparr>"

text \<open>
  The steps after the duplicate check: generate the code (eight draws of the random
  source), resolve the referrer, create the record, answer 200.
\<close>

definition create_entry ::
    "server_env \<Rightarrow> jsval \<Rightarrow> jsval \<Rightarrow> jsval \<Rightarrow> response \<times> server_env \<times> event list" where
  "create_entry env email firstname referredBy =
     (let code = generateCode (random env) 8;
          env1 = env\<lparr>random := (\<lambda>k. random env (k + 8))\<rparr>;
          t1 = logger_debug env ''notion-api'' ''Generated referral code'';
          (referrerPageId, t2) = lookup_referrer env1 referredBy;
          t3 = t1 @ t2 @ logger_debug env ''notion-api'' ''Creating new page in Notion''
      in case entry_name firstname email of
           Inl e \<Rightarrow> (fst (notion_catch e), env1, t3 @ snd (notion_catch e))
         | Inr nm \<Rightarrow>
             (let props = entry_properties nm email code referredBy referrerPageId;
                  t4 = t3 @ [NotionCreate props]
              in case pages_create env1 props of
                   (Inl e, env2) \<Rightarrow> (fst (notion_catch e), env2, t4 @ snd (notion_catch e))
                 | (Inr page, env2) \<Rightarrow>
                     (added_to_waitlist code (page_id page), env2,
                      t4 @ [Log Linfo ''notion-api'' ''Successfully added to waitlist''])))"

definition POST_notion :: "server_env \<Rightarrow> request \<Rightarrow> response \<times> server_env \<times> event list" where
  "POST_notion env req =
     (case json req of
        Inl e \<Rightarrow> (fst (notion_catch e), env, snd (notion_catch e))
      | Inr b \<Rightarrow>
     (case get_prop b ''email'' of
        Inl e \<Rightarrow> (fst (notion_catch e), env, snd (notion_catch e))
      | Inr email \<Rightarrow>
     (case get_prop b ''firstname'' of
        Inl e \<Rightarrow> (fst (notion_catch e), env, snd (notion_catch e))
      | Inr firstname \<Rightarrow>
     (case get_prop b ''referredBy'' of
        Inl e \<Rightarrow> (fst (notion_catch e), env, snd (notion_catch e))
      | Inr referredBy \<Rightarrow>
     (let t0 = logger_debug env ''notion-api'' ''Processing waitlist submission''
      in if \<not> truthy email
         then (email_required, env, t0 @ [Log Lwarn ''notion-api'' ''Missing email in request''])
         else
           (let t1 = t0 @ logger_debug env ''notion-api'' ''Checking for existing email''
                       @ [NotionQuery ''Email'' email]
            in case query_email env email of
                 Inl e \<Rightarrow> (fst (notion_catch e), env, t1 @ snd (notion_catch e))
               | Inr existing \<Rightarrow>
                   if existing \<noteq> []
                   then (already_on_waitlist, env,
                         t1 @ [Log Linfo ''notion-api'' ''Duplicate email submission attempted''])
                   else (case create_entry env email firstname referredBy of
                           (r, env', t2) \<Rightarrow> (r, env', t1 @ t2))))))))"

section \<open>Mail dispatch endpoint (src/app/api/mail/route.ts)\<close>

text \<open>\<^verbatim>\<open>Ratelimit.slidingWindow(2, "1 m")\<close>: the fixed policy of the limiter.\<close>

definition slidingWindow_tokens :: nat where
  "slidingWindow_tokens = 2"

definition slidingWindow_window :: string where
  "slidingWindow_window = ''1 m''"

text \<open>
  The caller's address: the first entry of x-forwarded-for, trimmed, when that header
  is there and not empty; else x-real-ip, trimmed; else the loopback address.
\<close>

definition caller_ip :: "request \<Rightarrow> string" where
  "caller_ip req =
     (let real_ip = (case x_real_ip req of None \<Rightarrow> ''127.0.0.1'' | Some h \<Rightarrow> trim h)
      in case x_forwarded_for req of
           None \<Rightarrow> real_ip
         | Some h \<Rightarrow>
             if h \<noteq> []
             then (case split_on CHR '','' h of [] \<Rightarrow> real_ip | w # ws \<Rightarrow> trim w)
             else real_ip)"

definition too_many_requests :: response where
  "too_many_requests = \<lparr>status = 429, body = JObj [(''error'', JStr ''Too many requests!'')]\<rparr>"

definition email_sent :: response where
  "email_sent = \<lparr>status = 200, body = JObj [(''message'', JStr ''Email sent successfully'')]\<rparr>"

definition send_failed :: "string \<Rightarrow> response" where
  "send_failed msg = \<lparr>status = 500, body = JObj [(''error'', JStr msg)]\<rparr>"

definition mail_catch :: "thrown \<Rightarrow> response \<times> event list" where
  "mail_catch e =
     (\<lparr>status = 500, body = JObj [(''error'', JStr ''Internal server error'')]\<rparr>,
      [Log Lerror ''mail-api'' ''Unexpected error in mail API''])"

text \<open>The steps after the rate limiter has let the request through.\<close>

definition send_welcome :: "server_env \<Rightarrow> request \<Rightarrow> response \<times> event list" where
  "send_welcome env req =
     (case json req of
        Inl e \<Rightarrow> mail_catch e
      | Inr b \<Rightarrow>
     (case get_prop b ''email'' of
        Inl e \<Rightarrow> mail_catch e
      | Inr email \<Rightarrow>
     (case get_prop b ''name'' of
        Inl e \<Rightarrow> mail_catch e
      | Inr nm \<Rightarrow>
        if \<not> truthy email
        then (email_required, [Log Lwarn ''mail-api'' ''Missing email in request''])
        else
          (let t = logger_debug env ''mail-api'' ''Sending email via Resend''
                     @ [ResendSend (case RESEND_FROM_EMAIL env of None \<Rightarrow> [] | Some a \<Rightarrow> a)
                          (JArr [email]) ''Welcome to Next.js + Notion CMS Waitlist'' nm]
           in case resend_send env of
                Inl e \<Rightarrow> (fst (mail_catch e), t @ snd (mail_catch e))
              | Inr res \<Rightarrow>
                  (case error res of
                     Some err \<Rightarrow>
                       (send_failed (error_message err),
                        t @ [Log Lerror ''mail-api'' ''Resend API error''])
                   | None \<Rightarrow>
                       (case data res of
                          None \<Rightarrow>
                            (send_failed ''Failed to send email'',
                             t @ [Log Lerror ''mail-api'' ''Resend returned no data''])
                        | Some mid \<Rightarrow>
                            (email_sent, t @ [Log Linfo ''mail-api'' ''Email sent successfully''])))))))"

definition POST_mail :: "server_env \<Rightarrow> request \<Rightarrow> response \<times> event list" where
  "POST_mail env req =
     (let ip = caller_ip req;
          t0 = logger_debug env ''mail-api'' ''Processing email request''
                 @ [RatelimitLimit slidingWindow_tokens slidingWindow_window ip]
      in case ratelimit_limit env ip of
           Inl e \<Rightarrow> (fst (mail_catch e), t0 @ snd (mail_catch e))
         | Inr result \<Rightarrow>
             if \<not> RatelimitResponse.success result
             then (too_many_requests, t0 @ [Log Lwarn ''mail-api'' ''Rate limit exceeded''])
             else (case send_welcome env req of (r, t1) \<Rightarrow> (r, t0 @ t1)))"

section \<open>Waitlist form (src/components/form.tsx)\<close>

subsection \<open>The email pattern\<close>

text \<open>
  Regular expressions over characters, with a character class as a predicate, and the
  textbook matcher by derivatives. The pattern of \<^verbatim>\<open>isValidEmail\<close> is anchored at both
  ends (\<^verbatim>\<open>^\<close> and \<^verbatim>\<open>$\<close>, no flags), so \<^verbatim>\<open>test\<close> asks whether the whole string matches.
\<close>

datatype regex =
    Zero
  | One
  | Atom "char \<Rightarrow> bool"
  | Alt regex regex
  | Seq regex regex
  | Star regex

fun nullable :: "regex \<Rightarrow> bool" where
  "nullable Zero = False"
| "nullable One = True"
| "nullable (Atom p) = False"
| "nullable (Alt r s) = (nullable r \<or> nullable s)"
| "nullable (Seq r s) = (nullable r \<and> nullable s)"
| "nullable (Star r) = True"

fun deriv :: "char \<Rightarrow> regex \<Rightarrow> regex" where
  "deriv c Zero = Zero"
| "deriv c One = Zero"
| "deriv c (Atom p) = (if p c then One else Zero)"
| "deriv c (Alt r s) = Alt (deriv c r) (deriv c s)"
| "deriv c (Seq r s) =
     (if nullable r then Alt (Seq (deriv c r) s) (deriv c s) else Seq (deriv c r) s)"
| "deriv c (Star r) = Seq (deriv c r) (Star r)"

fun regex_test :: "regex \<Rightarrow> string \<Rightarrow> bool" where
  "regex_test r [] = nullable r"
| "regex_test r (c # cs) = regex_test (deriv c r) cs"

text \<open>What the matcher decides: the strings a regular expression denotes.\<close>

inductive matches :: "regex \<Rightarrow> string \<Rightarrow> bool" where
  m_One: "matches One []"
| m_Atom: "p c \<Longrightarrow> matches (Atom p) [c]"
| m_AltL: "matches r w \<Longrightarrow> matches (Alt r s) w"
| m_AltR: "matches s w \<Longrightarrow> matches (Alt r s) w"
| m_Seq: "matches r u \<Longrightarrow> matches s v \<Longrightarrow> matches (Seq r s) (u @ v)"
| m_StarNil: "matches (Star r) []"
| m_StarStep: "matches r u \<Longrightarrow> matches (Star r) v \<Longrightarrow> matches (Star r) (u @ v)"

definition Plus :: "regex \<Rightarrow> regex" where
  "Plus r = Seq r (Star r)"

text \<open>\<^verbatim>\<open>[^\s@]\<close>: any character that is neither white space nor the at sign.\<close>

definition not_space_or_at :: "char \<Rightarrow> bool" where
  "not_space_or_at c = (\<not> is_space c \<and> c \<noteq> CHR ''@'')"

text \<open>\<^verbatim>\<open>const emailRegex = /^[^\s@]+@[^\s@]+\.[^\s@]+$/;\<close>\<close>

definition emailRegex :: regex where
  "emailRegex =
     Seq (Plus (Atom not_space_or_at))
       (Seq (Atom (\<lambda>c. c = CHR ''@''))
         (Seq (Plus (Atom not_space_or_at))
           (Seq (Atom (\<lambda>c. c = CHR ''.''))
             (Plus (Atom not_space_or_at)))))"

definition isValidEmail :: "string \<Rightarrow> bool" where
  "isValidEmail email = regex_test emailRegex email"

subsection \<open>String conversion in a template literal\<close>

definition digit_char :: "nat \<Rightarrow> char" where
  "digit_char d = ''0123456789'' ! (d mod 10)"

function decimal :: "nat \<Rightarrow> string" where
  "decimal n = (if n < 10 then [digit_char n] else decimal (n div 10) @ [digit_char (n mod 10)])"
  by pat_completeness auto
termination
  by (relation "measure (\<lambda>n. n)") auto

declare decimal.simps [simp del]

definition show_int :: "int \<Rightarrow> string" where
  "show_int i = (if i < 0 then CHR ''-'' # decimal (nat (- i)) else decimal (nat i))"

fun join_commas :: "string list \<Rightarrow> string" where
  "join_commas [] = []"
| "join_commas [w] = w"
| "join_commas (w # ws) = w @ CHR '','' # join_commas ws"

text \<open>\<^verbatim>\<open>`${v}`\<close>: an array joins its elements with commas, \<^verbatim>\<open>null\<close> and \<^verbatim>\<open>undefined\<close>
  elements as empty text; an object is the text "[object Object]". An integer is
  printed in full decimal, which is what JavaScript prints below \<open>10\<^sup>2\<^sup>1\<close> (from there
  on it switches to exponent notation, which is not modelled). Only the share link of
  a successful submission uses this conversion.\<close>

fun to_string :: "jsval \<Rightarrow> string" where
  "to_string JUndefined = ''undefined''"
| "to_string JNull = ''null''"
| "to_string (JBool b) = (if b then ''true'' else ''false'')"
| "to_string (JNum n) = show_int n"
| "to_string (JStr s) = s"
| "to_string (JArr xs) =
     join_commas (map (\<lambda>x. if x = JNull \<or> x = JUndefined then [] else to_string x) xs)"
| "to_string (JObj kvs) = ''[object Object]''"

subsection \<open>State, surroundings and effects of the form\<close>

record formData =
  email :: string
  name :: string

record form_state =
  step :: nat
  formData :: formData
  loading :: bool
  success :: bool
  shareLink :: string

text \<open>
  What a \<^verbatim>\<open>fetch\<close> call settles to: a rejection (the network failed; the browser throws
  a TypeError with a message of its own, such as "Failed to fetch"), or a response with
  its status and what \<^verbatim>\<open>res.json()\<close> settles to: the value the body parses to, or
  \<open>None\<close> when \<^verbatim>\<open>json()\<close> rejects, because the body is not JSON or cannot be read.
\<close>

datatype fetch_result = NetworkFailure | Responded nat "jsval option"

definition failed_to_fetch :: thrown where
  "failed_to_fetch = ErrorObj ''TypeError'' ''Failed to fetch''"

text \<open>What \<^verbatim>\<open>await mailRes.text()\<close> throws when the body of the answer cannot be read.\<close>

definition text_rejected :: thrown where
  "text_rejected = ErrorObj ''TypeError'' ''Failed to read the response body''"

definition not_json :: thrown where
  "not_json = ErrorObj ''SyntaxError'' ''Unexpected token in JSON''"

text \<open>\<^verbatim>\<open>res.ok\<close>: the status is in the range 200 to 299.\<close>

definition ok :: "nat \<Rightarrow> bool" where
  "ok st = (200 \<le> st \<and> st \<le> 299)"

text \<open>
  The surroundings of one submission: the development flag of the logger, the
  \<^verbatim>\<open>ref\<close> query parameter of the page, \<^verbatim>\<open>window.location.origin\<close>, whether the
  parent passed an \<^verbatim>\<open>onSuccessChange\<close> callback, what the two endpoints answer, and
  whether reading the text of the mail answer, \<^verbatim>\<open>await mailRes.text()\<close>, rejects.
\<close>

record client_env =
  client_isDev :: bool
  refCode :: "string option"
  origin :: string
  has_onSuccessChange :: bool
  mail_fetch :: fetch_result
  mail_text_rejects :: bool
  notion_fetch :: fetch_result

datatype ui_event =
    UiLog LogLevel string string
  | Fetch string jsval
  | ToastError jsval
  | ToastSuccess string
  | OnSuccessChange bool
  | Confetti

fun is_fetch :: "ui_event \<Rightarrow> bool" where
  "is_fetch (Fetch url payload) = True"
| "is_fetch e = False"

fun is_toast :: "ui_event \<Rightarrow> bool" where
  "is_toast (ToastError m) = True"
| "is_toast (ToastSuccess m) = True"
| "is_toast e = False"

definition client_debug :: "client_env \<Rightarrow> string \<Rightarrow> string \<Rightarrow> ui_event list" where
  "client_debug env source message =
     (if client_isDev env then [UiLog Ldebug source message] else [])"

subsection \<open>handleSubmit\<close>

text \<open>The request body both endpoints receive; \<^verbatim>\<open>JSON.stringify\<close> leaves out the
  \<^verbatim>\<open>referredBy\<close> key when its value is \<^verbatim>\<open>undefined\<close>.\<close>

definition payload :: "client_env \<Rightarrow> form_state \<Rightarrow> jsval" where
  "payload env st =
     JObj ([(''firstname'',
              if name (formData st) \<noteq> [] then JStr (name (formData st))
              else first_elem (split_on CHR ''@'' (email (formData st)))),
            (''email'', JStr (email (formData st)))]
           @ (case refCode env of
                None \<Rightarrow> []
              | Some c \<Rightarrow> if c \<noteq> [] then [(''referredBy'', JStr c)] else []))"

text \<open>
  The branch \<^verbatim>\<open>if (!notionRes.ok)\<close>. The result is the error thrown, if any (\<open>None\<close>
  is the early \<^verbatim>\<open>return\<close> of the 409 case), and the effects.
\<close>

definition notion_not_ok :: "nat \<Rightarrow> jsval option \<Rightarrow> thrown option \<times> ui_event list" where
  "notion_not_ok st b =
     (let errData = (case b of None \<Rightarrow> JObj [(''error'', JStr ''Unknown error'')] | Some v \<Rightarrow> v)
      in case get_prop errData ''error'' of
           Inl e \<Rightarrow> (Some e, [])
         | Inr err \<Rightarrow>
             (let t = [UiLog Lerror ''form'' ''Notion API request failed'']
              in if st = 409
                 then (None, t @ [ToastError (if truthy err then err
                                               else JStr ''You're already on the waitlist!'')])
                 else (Some (ErrorObj ''Error'' (if st = 429 then ''Rate limited'' else ''Notion failed'')),
                       t)))"

text \<open>The body of the \<^verbatim>\<open>try\<close> block: the error thrown, if any, the state and the effects.\<close>

definition submit_try ::
    "client_env \<Rightarrow> form_state \<Rightarrow> thrown option \<times> form_state \<times> ui_event list" where
  "submit_try env st =
     (let t1 = [UiLog Linfo ''form'' ''Starting form submission'']
                @ client_debug env ''form'' ''Calling mail API''
                @ [Fetch ''/api/mail'' (payload env st)]
      in case mail_fetch env of
           NetworkFailure \<Rightarrow> (Some failed_to_fetch, st, t1)
         | Responded mst mb \<Rightarrow>
             if \<not> ok mst
             then (if mail_text_rejects env
                   then (Some text_rejected, st, t1)
                   else (Some (ErrorObj ''Error''
                                 (if mst = 429 then ''Rate limited'' else ''Email failed'')),
                         st, t1 @ [UiLog Lerror ''form'' ''Mail API request failed'']))
             else
               (let t2 = t1 @ client_debug env ''form'' ''Mail API succeeded, calling notion API''
                           @ [Fetch ''/api/notion'' (payload env st)]
                in case notion_fetch env of
                     NetworkFailure \<Rightarrow> (Some failed_to_fetch, st, t2)
                   | Responded nst nb \<Rightarrow>
                       if \<not> ok nst
                       then (fst (notion_not_ok nst nb), st, t2 @ snd (notion_not_ok nst nb))
                       else
                         (case nb of
                            None \<Rightarrow> (Some not_json, st, t2)
                          | Some v \<Rightarrow>
                              (case get_prop v ''code'' of
                                 Inl e \<Rightarrow> (Some e, st, t2)
                               | Inr code \<Rightarrow>
                                   (None,
                                    st\<lparr>shareLink := origin env @ ''/?ref='' @ to_string code,
                                       success := True,
                                       formData := \<lparr>email = [], name = []\<rparr>\<rparr>,
                                    t2 @ [UiLog Linfo ''form'' ''Form submission completed successfully'',
                                          ToastSuccess ''You're on the waitlist!'']
                                       @ (if has_onSuccessChange env then [OnSuccessChange True] else [])
                                       @ [Confetti])))))"

text \<open>The \<^verbatim>\<open>catch\<close> block: a log record, and a toast when the thrown value is an Error.\<close>

definition submit_catch :: "thrown \<Rightarrow> ui_event list" where
  "submit_catch e =
     UiLog Lerror ''form'' ''Form submission failed''
     # (case e of
          ErrorObj nm msg \<Rightarrow>
            [ToastError (JStr (if msg = ''Rate limited''
                               then ''Too many attempts. Try again later.''
                               else ''Something went wrong. Try again.''))]
        | _ \<Rightarrow> [])"

definition handleSubmit :: "client_env \<Rightarrow> form_state \<Rightarrow> form_state \<times> ui_event list" where
  "handleSubmit env st =
     (if step st = 1 then
        (if email (formData st) = [] \<or> \<not> isValidEmail (email (formData st))
         then (st, [UiLog Lwarn ''form'' ''Invalid email submitted'',
                    ToastError (JStr ''Please enter a valid email address'')])
         else (st\<lparr>step := 2\<rparr>, client_debug env ''form'' ''Step 1 completed, moving to step 2''))
      else
        (case submit_try env (st\<lparr>loading := True\<rparr>) of
           (None, st', t) \<Rightarrow> (st'\<lparr>loading := False\<rparr>, t)
         | (Some e, st', t) \<Rightarrow> (st'\<lparr>loading := False\<rparr>, t @ submit_catch e)))"

section \<open>Notions used to state the properties\<close>

text \<open>The record that a successful enrollment appends to the store.\<close>

definition new_page :: "server_env \<Rightarrow> jsval \<Rightarrow> jsval \<Rightarrow> jsval \<Rightarrow> page" where
  "new_page env nm eml refBy =
     \<lparr>page_id = page_ids env (length (pages env)),
      properties = entry_properties nm eml (generateCode (random env) 8) refBy
                     (fst (lookup_referrer env refBy))\<rparr>"




definition toasts :: "ui_event list \<Rightarrow> ui_event list" where
  "toasts evs = filter is_toast evs"

text \<open>How the two calls of a submission went.\<close>

definition mail_passed :: "client_env \<Rightarrow> bool" where
  "mail_passed env = (case mail_fetch env of NetworkFailure \<Rightarrow> False | Responded s b \<Rightarrow> ok s)"



text \<open>The submission goes through: both calls answer with a 2xx status, and the body of
  the enrollment answer is JSON from which \<^verbatim>\<open>code\<close> can be read.\<close>

definition submission_succeeds :: "client_env \<Rightarrow> bool" where
  "submission_succeeds env =
     (mail_passed env \<and>
      (case notion_fetch env of
         NetworkFailure \<Rightarrow> False
       | Responded s b \<Rightarrow> ok s \<and> b \<noteq> None \<and> b \<noteq> Some JNull \<and> b \<noteq> Some JUndefined))"






section \<open>Example surroundings\<close>

definition example_page :: page where
  "example_page =
     \<lparr>page_id = ''page-1'',
      properties = \<lparr>Name = JStr ''alice'', Email = JStr ''alice@example.com'',
                    Referral_Code = ''ABCD2345'', Referred_By = [], Referrer = []\<rparr>\<rparr>"

definition example_env :: server_env where
  "example_env =
     \<lparr>isDev = False, random = (\<lambda>k. 1 / 2), pages = [example_page],
      page_ids = (\<lambda>n. ''page-2''),
      email_query_error = None, code_query_error = None, create_error = None,
      ratelimit_limit = (\<lambda>key. Inr \<lparr>RatelimitResponse.success = True, limit = 2, remaining = 1\<rparr>),
      resend_send = Inr \<lparr>data = Some ''message-1'', error = None\<rparr>,
      RESEND_FROM_EMAIL = Some ''hello@example.com''\<rparr>"

definition example_request :: "jsval \<Rightarrow> request" where
  "example_request b = \<lparr>x_forwarded_for = None, x_real_ip = None, json = Inr b\<rparr>"

definition example_broken_request :: request where
  "example_broken_request =
     \<lparr>x_forwarded_for = None, x_real_ip = None,
      json = Inl (ErrorObj ''SyntaxError'' ''Unexpected end of JSON input'')\<rparr>"

definition example_denying_env :: server_env where
  "example_denying_env =
     example_env\<lparr>ratelimit_limit :=
       (\<lambda>key. Inr \<lparr>RatelimitResponse.success = False, limit = 2, remaining = 0\<rparr>)\<rparr>"

definition example_proxied_request :: request where
  "example_proxied_request =
     \<lparr>x_forwarded_for = Some '' 203.0.113.7 , 10.0.0.1'', x_real_ip = None,
      json = Inr (JObj [(''email'', JStr ''a@b.com''), (''name'', JStr ''Ann'')])\<rparr>"

definition example_form :: form_state where
  "example_form =
     \<lparr>step = 2, formData = \<lparr>email = ''a@b.com'', name = []\<rparr>, loading = False,
      success = False, shareLink = []\<rparr>"

definition example_client :: client_env where
  "example_client =
     \<lparr>client_isDev = False, refCode = None, origin = ''https://waitlist.example'',
      has_onSuccessChange = False,
      mail_fetch = Responded 200 (Some (body email_sent)),
      mail_text_rejects = False,
      notion_fetch = Responded 200 (Some (body (added_to_waitlist ''SSSSSSSS'' ''page-2'')))\<rparr>"

section \<open>Properties of the referral code generator\<close>

lemma charset_length: "length REFERRAL_CODE_CHARSET = 32"
  by (simp add: REFERRAL_CODE_CHARSET_def)

lemma charset_distinct: "distinct REFERRAL_CODE_CHARSET"
  by code_simp

lemma charset_alphabet: "REFERRAL_CODE_CHARSET = unambiguous_alphabet"
  by (simp add: REFERRAL_CODE_CHARSET_def unambiguous_alphabet_def)

lemma draw_index_in_range:
  assumes "0 \<le> r" "r < 1"
  shows "0 \<le> \<lfloor>r * real (length REFERRAL_CODE_CHARSET)\<rfloor>
         \<and> \<lfloor>r * real (length REFERRAL_CODE_CHARSET)\<rfloor> < int (length REFERRAL_CODE_CHARSET)"
proof -
  have "r * 32 < 32" using assms by simp
  then have "\<lfloor>r * 32\<rfloor> < 32" by (simp add: floor_less_iff)
  moreover have "0 \<le> \<lfloor>r * 32\<rfloor>" using assms by simp
  ultimately show ?thesis by (simp add: charset_length)
qed

lemma charset_at_draw:
  assumes "0 \<le> r" "r < 1"
  shows "\<exists>c \<in> set REFERRAL_CODE_CHARSET.
           charset_at REFERRAL_CODE_CHARSET \<lfloor>r * real (length REFERRAL_CODE_CHARSET)\<rfloor> = [c]"
proof -
  let ?k = "\<lfloor>r * real (length REFERRAL_CODE_CHARSET)\<rfloor>"
  from draw_index_in_range [OF assms]
  have rng: "0 \<le> ?k" "?k < int (length REFERRAL_CODE_CHARSET)" by simp_all
  then have "nat ?k < length REFERRAL_CODE_CHARSET" by linarith
  then have "REFERRAL_CODE_CHARSET ! nat ?k \<in> set REFERRAL_CODE_CHARSET" by simp
  moreover have "charset_at REFERRAL_CODE_CHARSET ?k = [REFERRAL_CODE_CHARSET ! nat ?k]"
    using rng by (simp add: charset_at_def)
  ultimately show ?thesis by blast
qed

lemma generateCode_loop_shape:
  "unit_draws rnd \<Longrightarrow>
     length (generateCode_loop rnd len i code) = length code + nat (len - i)
     \<and> set (generateCode_loop rnd len i code) \<subseteq> set code \<union> set REFERRAL_CODE_CHARSET"
proof (induction rnd len i code rule: generateCode_loop.induct)
  case (1 rnd len i code)
  show ?case
  proof (cases "i < len")
    case False
    then show ?thesis by (simp add: generateCode_loop.simps [of rnd len i code])
  next
    case True
    from "1.prems" have "0 \<le> rnd (nat i)" "rnd (nat i) < 1" by (simp_all add: unit_draws_def)
    from charset_at_draw [OF this] obtain c where
      c: "c \<in> set REFERRAL_CODE_CHARSET"
         "charset_at REFERRAL_CODE_CHARSET
            \<lfloor>rnd (nat i) * real (length REFERRAL_CODE_CHARSET)\<rfloor> = [c]"
      by blast
    have step: "generateCode_loop rnd len i code = generateCode_loop rnd len (i + 1) (code @ [c])"
      using True c(2) by (simp add: generateCode_loop.simps [of rnd len i code])
    from "1.IH" [OF True "1.prems"] c(2)
    have ih: "length (generateCode_loop rnd len (i + 1) (code @ [c]))
                = length (code @ [c]) + nat (len - (i + 1))"
             "set (generateCode_loop rnd len (i + 1) (code @ [c]))
                \<subseteq> set (code @ [c]) \<union> set REFERRAL_CODE_CHARSET"
      by simp_all
    have "length (code @ [c]) + nat (len - (i + 1)) = length code + nat (len - i)"
      using True by simp
    with ih(1) step have "length (generateCode_loop rnd len i code) = length code + nat (len - i)"
      by simp
    moreover from ih(2) step c(1)
    have "set (generateCode_loop rnd len i code) \<subseteq> set code \<union> set REFERRAL_CODE_CHARSET"
      by auto
    ultimately show ?thesis by simp
  qed
qed

text \<open>
  Claim C1, as the code has it. For every integer length \<open>0 \<le> len\<close> and every run of
  \<^verbatim>\<open>Math.random()\<close> draws in \<open>[0, 1)\<close>, \<open>generateCode\<close> returns a string of exactly
  \<open>len\<close> characters, each of them from the fixed alphabet; that alphabet is the
  uppercase letters and digits without I, O, 0 and 1, and it has 32 distinct symbols.
\<close>

theorem generateCode_length_and_alphabet:
  assumes "unit_draws rnd" and "0 \<le> len"
  shows "int (length (generateCode rnd len)) = len
         \<and> set (generateCode rnd len) \<subseteq> set REFERRAL_CODE_CHARSET
         \<and> REFERRAL_CODE_CHARSET = unambiguous_alphabet
         \<and> distinct REFERRAL_CODE_CHARSET
         \<and> length REFERRAL_CODE_CHARSET = 32"
proof -
  from generateCode_loop_shape [OF assms(1), of len 0 "''''"]
  have "length (generateCode rnd len) = nat len"
    and "set (generateCode rnd len) \<subseteq> set REFERRAL_CODE_CHARSET"
    by (simp_all add: generateCode_def)
  with assms(2) show ?thesis
    using charset_alphabet charset_distinct charset_length by simp
qed

text \<open>The theorem of claim C1 at a run of draws that are all one half, for three
  characters: index 16 of the alphabet, the letter S, three times.\<close>

theorem generateCode_length_and_alphabet_witness:
  "unit_draws (\<lambda>k. 1 / 2) \<and> (0::int) \<le> 3
   \<and> generateCode (\<lambda>k. 1 / 2) 3 = ''SSS''
   \<and> int (length (generateCode (\<lambda>k. 1 / 2) 3)) = 3
   \<and> set (generateCode (\<lambda>k. 1 / 2) 3) \<subseteq> set REFERRAL_CODE_CHARSET"
proof -
  have h: "unit_draws (\<lambda>k. 1 / 2)" by (simp add: unit_draws_def)
  have v: "generateCode (\<lambda>k. 1 / 2) 3 = ''SSS''"
    by (simp add: generateCode_def generateCode_loop.simps charset_at_def REFERRAL_CODE_CHARSET_def)
  have n: "(0::int) \<le> 3" by simp
  from generateCode_length_and_alphabet [OF h n]
  have "int (length (generateCode (\<lambda>k. 1 / 2) 3)) = 3"
    and "set (generateCode (\<lambda>k. 1 / 2) 3) \<subseteq> set REFERRAL_CODE_CHARSET"
    by blast+
  with h n v show ?thesis by blast
qed

text \<open>Claim C1 as worded speaks of a 33-symbol alphabet. The alphabet of the code has
  neither 33 positions nor 33 distinct symbols.\<close>

theorem charset_size_counterexample:
  "length REFERRAL_CODE_CHARSET \<noteq> 33 \<and> card (set REFERRAL_CODE_CHARSET) \<noteq> 33"
  using charset_length distinct_card [OF charset_distinct] by simp

section \<open>Properties of the enrollment endpoint\<close>

lemma downstream_append: "downstream (xs @ ys) = downstream xs @ downstream ys"
  by (simp add: downstream_def)

lemma downstream_debug: "downstream (logger_debug env src msg) = []"
  by (simp add: downstream_def logger_debug_def)

lemma query_code_random [simp]: "query_code (env\<lparr>random := f\<rparr>) v = query_code env v"
  by (simp add: query_code_def split: option.split)

lemma logger_debug_random [simp]:
  "logger_debug (env\<lparr>random := f\<rparr>) src msg = logger_debug env src msg"
  by (simp add: logger_debug_def)

lemma lookup_referrer_random [simp]:
  "lookup_referrer (env\<lparr>random := f\<rparr>) rb = lookup_referrer env rb"
  by (simp add: lookup_referrer_def Let_def split: sum.split list.split)

text \<open>A body from which one property can be read is neither \<^verbatim>\<open>null\<close> nor
  \<^verbatim>\<open>undefined\<close>, so every property can be read from it.\<close>

lemma get_prop_total:
  "get_prop b k = Inr v \<Longrightarrow> \<exists>v'. get_prop b k' = Inr v'"
  by (cases b) simp_all

lemma get_prop_defined:
  "v \<noteq> JNull \<Longrightarrow> v \<noteq> JUndefined \<Longrightarrow> \<exists>x. get_prop v k = Inr x"
  by (cases v) simp_all

lemma generateCode_8:
  "unit_draws rnd \<Longrightarrow> length (generateCode rnd 8) = 8"
  using generateCode_loop_shape [of rnd 8 0 "[]"] by (simp add: generateCode_def)

text \<open>\<^verbatim>\<open>s.split(sep)[0]\<close> is the text before the first separator.\<close>

lemma split_on_first:
  "first_elem (split_on sep s) = JStr (takeWhile (\<lambda>c. c \<noteq> sep) s)"
proof (induction s)
  case Nil
  show ?case by simp
next
  case (Cons c cs)
  then show ?case by (cases "split_on sep cs") auto
qed

lemma entry_name_string:
  "entry_name fname (JStr s) =
     Inr (if truthy fname then fname else JStr (takeWhile (\<lambda>c. c \<noteq> CHR ''@'') s))"
  by (simp add: entry_name_def split_on_first)

lemma create_entry_created:
  assumes "create_error env = None" and "entry_name fname eml = Inr nm"
  shows "fst (create_entry env eml fname refBy) =
           added_to_waitlist (generateCode (random env) 8) (page_ids env (length (pages env)))"
    and "pages (fst (snd (create_entry env eml fname refBy))) =
           pages env @ [new_page env nm eml refBy]"
    and "filter is_create (snd (snd (create_entry env eml fname refBy))) =
           [NotionCreate (properties (new_page env nm eml refBy))]"
  using assms
  by (simp_all add: create_entry_def pages_create_def new_page_def Let_def logger_debug_def
        lookup_referrer_def split: prod.split sum.split list.split)

lemma create_entry_200:
  assumes "status (fst (create_entry env eml fname refBy)) = 200"
  shows "create_error env = None \<and> (\<exists>nm. entry_name fname eml = Inr nm)"
  using assms
  by (auto simp add: create_entry_def pages_create_def Let_def notion_catch_def
        split: prod.splits sum.splits option.splits)

lemma POST_notion_fresh:
  assumes "json req = Inr b" and "get_prop b ''email'' = Inr eml"
    and "get_prop b ''firstname'' = Inr fname" and "get_prop b ''referredBy'' = Inr refBy"
    and "truthy eml" and "query_email env eml = Inr []"
  shows "fst (POST_notion env req) = fst (create_entry env eml fname refBy)"
    and "fst (snd (POST_notion env req)) = fst (snd (create_entry env eml fname refBy))"
    and "filter is_create (snd (snd (POST_notion env req)))
           = filter is_create (snd (snd (create_entry env eml fname refBy)))"
  using assms
  by (simp_all add: POST_notion_def Let_def logger_debug_def split: prod.split)

lemma POST_notion_duplicate:
  assumes "json req = Inr b" and "get_prop b ''email'' = Inr eml"
    and "truthy eml" and "query_email env eml = Inr (p # ps)"
  shows "fst (POST_notion env req) = already_on_waitlist"
    and "fst (snd (POST_notion env req)) = env"
    and "filter is_create (snd (snd (POST_notion env req))) = []"
proof -
  from get_prop_total [OF assms(2)] obtain fn where fn: "get_prop b ''firstname'' = Inr fn" by blast
  from get_prop_total [OF assms(2)] obtain rb where rb: "get_prop b ''referredBy'' = Inr rb" by blast
  show "fst (POST_notion env req) = already_on_waitlist"
    and "fst (snd (POST_notion env req)) = env"
    and "filter is_create (snd (snd (POST_notion env req))) = []"
    using assms fn rb by (simp_all add: POST_notion_def Let_def logger_debug_def)
qed

lemma POST_notion_200:
  assumes "json req = Inr b" and "get_prop b ''email'' = Inr eml"
    and "get_prop b ''firstname'' = Inr fn" and "get_prop b ''referredBy'' = Inr rb"
    and "status (fst (POST_notion env req)) = 200"
  shows "truthy eml \<and> query_email env eml = Inr []"
  using assms
  by (auto simp add: POST_notion_def Let_def email_required_def already_on_waitlist_def
        notion_catch_def split: sum.splits if_splits list.splits)

lemma already_text: "sublist ''already on the waitlist'' ''You're already on the waitlist!''"
proof -
  have "''You're already on the waitlist!'' = ''You're '' @ ''already on the waitlist'' @ ''!''"
    by simp
  then show ?thesis unfolding sublist_def by blast
qed

lemma query_email_found:
  assumes "email_query_error env = None" and "p \<in> set (pages env)" and "Email (properties p) = eml"
  shows "\<exists>q qs. query_email env eml = Inr (q # qs)"
proof -
  have "p \<in> set (filter (\<lambda>p. Email (properties p) = eml) (pages env))"
    using assms by simp
  then obtain q qs where "filter (\<lambda>p. Email (properties p) = eml) (pages env) = q # qs"
    by (cases "filter (\<lambda>p. Email (properties p) = eml) (pages env)") auto
  then show ?thesis using assms(1) by (simp add: query_email_def)
qed

lemma query_email_none:
  assumes "email_query_error env = None" and "\<forall>p \<in> set (pages env). Email (properties p) \<noteq> eml"
  shows "query_email env eml = Inr []"
  using assms by (simp add: query_email_def filter_empty_conv)

text \<open>
  Claim C3. Take an enrollment request that carries an email, and a store that answers
  the duplicate query. If a record of the store has that email, the endpoint answers
  HTTP 409 with the error text "You're already on the waitlist!" (which contains
  "already on the waitlist"), leaves the store and the rest of its surroundings as they
  were and issues no record creation. If no record has that email, the email is a
  string, the store accepts the creation and the random draws are in \<open>[0, 1)\<close>, the
  endpoint answers HTTP 200 with a code of eight characters, hence not empty, and the
  store has one record more.
\<close>

theorem POST_notion_duplicate_or_enrolled:
  assumes "json req = Inr b" and "get_prop b ''email'' = Inr eml" and "truthy eml"
    and "email_query_error env = None"
  shows "((\<exists>p \<in> set (pages env). Email (properties p) = eml) \<longrightarrow>
            status (fst (POST_notion env req)) = 409
          \<and> body (fst (POST_notion env req)) = JObj [(''error'', JStr ''You're already on the waitlist!'')]
          \<and> sublist ''already on the waitlist'' ''You're already on the waitlist!''
          \<and> fst (snd (POST_notion env req)) = env
          \<and> filter is_create (snd (snd (POST_notion env req))) = [])
       \<and> ((\<forall>p \<in> set (pages env). Email (properties p) \<noteq> eml) \<and> (\<exists>s. eml = JStr s)
            \<and> create_error env = None \<and> unit_draws (random env) \<longrightarrow>
            status (fst (POST_notion env req)) = 200
          \<and> get_prop (body (fst (POST_notion env req))) ''code''
               = Inr (JStr (generateCode (random env) 8))
          \<and> length (generateCode (random env) 8) = 8
          \<and> generateCode (random env) 8 \<noteq> []
          \<and> length (pages (fst (snd (POST_notion env req)))) = length (pages env) + 1)"
proof (intro conjI impI)
  assume "\<exists>p \<in> set (pages env). Email (properties p) = eml"
  then obtain q qs where q: "query_email env eml = Inr (q # qs)"
    using query_email_found [OF assms(4)] by blast
  note dup = POST_notion_duplicate [OF assms(1,2,3) q]
  show "status (fst (POST_notion env req)) = 409"
    by (simp add: dup already_on_waitlist_def)
  show "body (fst (POST_notion env req)) = JObj [(''error'', JStr ''You're already on the waitlist!'')]"
    by (simp add: dup already_on_waitlist_def)
  show "sublist ''already on the waitlist'' ''You're already on the waitlist!''"
    by (rule already_text)
  show "fst (snd (POST_notion env req)) = env" by (rule dup)
  show "filter is_create (snd (snd (POST_notion env req))) = []" by (rule dup)
next
  assume fresh: "(\<forall>p \<in> set (pages env). Email (properties p) \<noteq> eml) \<and> (\<exists>s. eml = JStr s)
            \<and> create_error env = None \<and> unit_draws (random env)"
  then obtain s where s: "eml = JStr s" by blast
  from fresh have q: "query_email env eml = Inr []"
    using query_email_none [OF assms(4)] by blast
  from get_prop_total [OF assms(2)] obtain fn where fn: "get_prop b ''firstname'' = Inr fn" by blast
  from get_prop_total [OF assms(2)] obtain rb where rb: "get_prop b ''referredBy'' = Inr rb" by blast
  note post = POST_notion_fresh [OF assms(1,2) fn rb assms(3) q]
  from fresh have ce: "create_error env = None" by simp
  have nm: "entry_name fn eml = Inr (if truthy fn then fn else JStr (takeWhile (\<lambda>c. c \<noteq> CHR ''@'') s))"
    by (simp add: s entry_name_string)
  note made = create_entry_created [OF ce nm, of rb]
  show "status (fst (POST_notion env req)) = 200"
    by (simp add: post(1) made(1) added_to_waitlist_def)
  show "get_prop (body (fst (POST_notion env req))) ''code'' = Inr (JStr (generateCode (random env) 8))"
    by (simp add: post(1) made(1) added_to_waitlist_def)
  from fresh show len: "length (generateCode (random env) 8) = 8"
    by (simp add: generateCode_8)
  then show "generateCode (random env) 8 \<noteq> []" by auto
  show "length (pages (fst (snd (POST_notion env req)))) = length (pages env) + 1"
    by (simp add: post(2) made(2))
qed

text \<open>
  Claim C4. Take an enrollment request with a non-empty string email that is not yet
  in the store, carrying a \<^verbatim>\<open>referredBy\<close> value, and a store that accepts the creation.
  Whatever the referral-code lookup does, the endpoint answers HTTP 200 with
  \<^verbatim>\<open>success: true\<close> and creates exactly one record, which keeps the \<^verbatim>\<open>referredBy\<close>
  text. If the lookup finds records, the Referrer relation of the new record is the id
  of the first of them; if it finds nothing, or throws, the relation is empty.
\<close>

theorem POST_notion_referrer_soft_fail:
  assumes "json req = Inr b" and "get_prop b ''email'' = Inr (JStr s)" and "s \<noteq> []"
    and "get_prop b ''referredBy'' = Inr refBy" and "truthy refBy"
    and "query_email env (JStr s) = Inr []" and "create_error env = None"
  shows "status (fst (POST_notion env req)) = 200
       \<and> get_prop (body (fst (POST_notion env req))) ''success'' = Inr (JBool True)
       \<and> (\<exists>pg. pages (fst (snd (POST_notion env req))) = pages env @ [pg]
              \<and> filter is_create (snd (snd (POST_notion env req))) = [NotionCreate (properties pg)]
              \<and> Referred_By (properties pg) = [refBy]
              \<and> (\<forall>r rs. query_code env refBy = Inr (r # rs) \<and> page_id r \<noteq> []
                     \<longrightarrow> Referrer (properties pg) = [page_id r])
              \<and> (query_code env refBy = Inr [] \<longrightarrow> Referrer (properties pg) = [])
              \<and> (\<forall>e. query_code env refBy = Inl e \<longrightarrow> Referrer (properties pg) = []))"
proof -
  from get_prop_total [OF assms(2)] obtain fn where fn: "get_prop b ''firstname'' = Inr fn" by blast
  have tr: "truthy (JStr s)" using assms(3) by simp
  note post = POST_notion_fresh [OF assms(1,2) fn assms(4) tr assms(6)]
  have nm: "entry_name fn (JStr s) = Inr (if truthy fn then fn else JStr (takeWhile (\<lambda>c. c \<noteq> CHR ''@'') s))"
    by (simp add: entry_name_string)
  note made = create_entry_created [OF assms(7) nm, of refBy]
  let ?pg = "new_page env (if truthy fn then fn else JStr (takeWhile (\<lambda>c. c \<noteq> CHR ''@'') s)) (JStr s) refBy"
  have st: "status (fst (POST_notion env req)) = 200"
    by (simp add: post(1) made(1) added_to_waitlist_def)
  have ok: "get_prop (body (fst (POST_notion env req))) ''success'' = Inr (JBool True)"
    by (simp add: post(1) made(1) added_to_waitlist_def)
  have p1: "pages (fst (snd (POST_notion env req))) = pages env @ [?pg]"
    by (simp add: post(2) made(2))
  have p2: "filter is_create (snd (snd (POST_notion env req))) = [NotionCreate (properties ?pg)]"
    by (simp add: post(3) made(3))
  have p3: "Referred_By (properties ?pg) = [refBy]"
    using assms(5) by (simp add: new_page_def entry_properties_def)
  have p4: "\<forall>r rs. query_code env refBy = Inr (r # rs) \<and> page_id r \<noteq> []
                     \<longrightarrow> Referrer (properties ?pg) = [page_id r]"
    using assms(5) by (simp add: new_page_def entry_properties_def lookup_referrer_def Let_def)
  have p5: "query_code env refBy = Inr [] \<longrightarrow> Referrer (properties ?pg) = []"
    using assms(5) by (simp add: new_page_def entry_properties_def lookup_referrer_def Let_def)
  have p6: "\<forall>e. query_code env refBy = Inl e \<longrightarrow> Referrer (properties ?pg) = []"
    using assms(5) by (simp add: new_page_def entry_properties_def lookup_referrer_def Let_def)
  from p1 p2 p3 p4 p5 p6 have "\<exists>pg. pages (fst (snd (POST_notion env req))) = pages env @ [pg]
              \<and> filter is_create (snd (snd (POST_notion env req))) = [NotionCreate (properties pg)]
              \<and> Referred_By (properties pg) = [refBy]
              \<and> (\<forall>r rs. query_code env refBy = Inr (r # rs) \<and> page_id r \<noteq> []
                     \<longrightarrow> Referrer (properties pg) = [page_id r])
              \<and> (query_code env refBy = Inr [] \<longrightarrow> Referrer (properties pg) = [])
              \<and> (\<forall>e. query_code env refBy = Inl e \<longrightarrow> Referrer (properties pg) = [])"
    by blast
  with st ok show ?thesis by blast
qed

text \<open>
  Claim C5. Whenever the endpoint answers HTTP 200, it has created exactly one record,
  appended to the store. Its name is the supplied \<^verbatim>\<open>firstname\<close> when that is truthy;
  otherwise (in particular when \<^verbatim>\<open>firstname\<close> is absent) the email is a string and
  the name is its part before the first at sign. Its email is the supplied one and its
  referral code the generated one. The body of the answer is \<^verbatim>\<open>success: true\<close>, a fixed
  message, \<^verbatim>\<open>code\<close>, the generated code, and \<^verbatim>\<open>notionId\<close>, the id of the created record.
\<close>

theorem POST_notion_success_record_and_reply:
  assumes "json req = Inr b" and "get_prop b ''email'' = Inr eml"
    and "get_prop b ''firstname'' = Inr fname"
    and "status (fst (POST_notion env req)) = 200"
  shows "\<exists>pg. pages (fst (snd (POST_notion env req))) = pages env @ [pg]
            \<and> filter is_create (snd (snd (POST_notion env req))) = [NotionCreate (properties pg)]
            \<and> (truthy fname \<longrightarrow> Name (properties pg) = fname)
            \<and> (\<not> truthy fname \<longrightarrow>
                 (\<exists>s. eml = JStr s \<and> Name (properties pg) = JStr (takeWhile (\<lambda>c. c \<noteq> CHR ''@'') s)))
            \<and> Email (properties pg) = eml
            \<and> Referral_Code (properties pg) = generateCode (random env) 8
            \<and> body (fst (POST_notion env req)) =
                JObj [(''success'', JBool True), (''message'', JStr ''Added to waitlist''),
                      (''code'', JStr (generateCode (random env) 8)),
                      (''notionId'', JStr (page_id pg))]"
proof -
  from get_prop_total [OF assms(2)] obtain rb where rb: "get_prop b ''referredBy'' = Inr rb" by blast
  from POST_notion_200 [OF assms(1,2,3) rb assms(4)]
  have tr: "truthy eml" and q: "query_email env eml = Inr []" by simp_all
  note post = POST_notion_fresh [OF assms(1,2,3) rb tr q]
  from assms(4) have "status (fst (create_entry env eml fname rb)) = 200" by (simp add: post(1))
  from create_entry_200 [OF this] obtain nm where
    ce: "create_error env = None" and nm: "entry_name fname eml = Inr nm" by blast
  note made = create_entry_created [OF ce nm, of rb]
  let ?pg = "new_page env nm eml rb"
  have n1: "truthy fname \<longrightarrow> Name (properties ?pg) = fname"
    using nm by (auto simp add: new_page_def entry_properties_def entry_name_def)
  have n2: "\<not> truthy fname \<longrightarrow>
                 (\<exists>s. eml = JStr s \<and> Name (properties ?pg) = JStr (takeWhile (\<lambda>c. c \<noteq> CHR ''@'') s))"
    using nm by (cases eml)
      (auto simp add: new_page_def entry_properties_def entry_name_def split_on_first
            split: if_splits)
  have "pages (fst (snd (POST_notion env req))) = pages env @ [?pg]"
    by (simp add: post(2) made(2))
  moreover have "filter is_create (snd (snd (POST_notion env req))) = [NotionCreate (properties ?pg)]"
    by (simp add: post(3) made(3))
  moreover have "Email (properties ?pg) = eml"
    and "Referral_Code (properties ?pg) = generateCode (random env) 8"
    by (simp_all add: new_page_def entry_properties_def)
  moreover have "body (fst (POST_notion env req)) =
                JObj [(''success'', JBool True), (''message'', JStr ''Added to waitlist''),
                      (''code'', JStr (generateCode (random env) 8)),
                      (''notionId'', JStr (page_id ?pg))]"
    by (simp add: post(1) made(1) added_to_waitlist_def new_page_def)
  ultimately show ?thesis using n1 n2 by blast
qed

text \<open>
  Claim C10. When the body of the request is not JSON, the endpoint answers HTTP 500
  (not 400) with a body that holds \<^verbatim>\<open>success: false\<close>, an error text and, as details,
  the message of the parse error; it leaves its surroundings as they were and makes no
  downstream call: no store query and no record creation. Its only effect is one error
  log record.
\<close>

theorem POST_notion_unparseable_body:
  assumes "json req = Inl e"
  shows "POST_notion env req =
           (\<lparr>status = 500,
             body = JObj [(''error'', JStr ''Failed to save to Notion''),
                          (''details'', JStr (getErrorMessage e)), (''success'', JBool False)]\<rparr>,
            env, [Log Lerror ''notion-api'' ''Error processing waitlist submission''])
         \<and> status (fst (POST_notion env req)) \<noteq> 400
         \<and> filter is_store_call (snd (snd (POST_notion env req))) = []
         \<and> downstream (snd (snd (POST_notion env req))) = []"
  using assms by (simp add: POST_notion_def notion_catch_def downstream_def)

section \<open>The enrollment endpoint on the example store\<close>

lemma example_env_fields:
  "pages example_env = [example_page]" "email_query_error example_env = None"
  "code_query_error example_env = None" "create_error example_env = None"
  "random example_env = (\<lambda>k. 1 / 2)" "page_ids example_env = (\<lambda>n. ''page-2'')"
  "isDev example_env = False"
  by (simp_all add: example_env_def)

lemma example_draws: "unit_draws (random example_env)"
  by (simp add: example_env_fields unit_draws_def)

lemma example_code: "generateCode (random example_env) 8 = ''SSSSSSSS''"
  by (simp add: example_env_fields generateCode_def generateCode_loop.simps charset_at_def
        REFERRAL_CODE_CHARSET_def)

lemma example_no_duplicate: "query_email example_env (JStr ''a@b.com'') = Inr []"
  by (simp add: query_email_def example_env_fields example_page_def)

text \<open>The theorem of claim C3 at the example store, which holds one record: its email is
  refused with 409 and nothing changes; a new email is enrolled with the code SSSSSSSS
  and the store then holds two records.\<close>

theorem POST_notion_duplicate_or_enrolled_witness:
  "status (fst (POST_notion example_env
             (example_request (JObj [(''email'', JStr ''alice@example.com'')])))) = 409
   \<and> fst (snd (POST_notion example_env
             (example_request (JObj [(''email'', JStr ''alice@example.com'')])))) = example_env
   \<and> status (fst (POST_notion example_env
             (example_request (JObj [(''email'', JStr ''a@b.com'')])))) = 200
   \<and> get_prop (body (fst (POST_notion example_env
             (example_request (JObj [(''email'', JStr ''a@b.com'')]))))) ''code''
       = Inr (JStr ''SSSSSSSS'')
   \<and> length (pages (fst (snd (POST_notion example_env
             (example_request (JObj [(''email'', JStr ''a@b.com'')])))))) = 2"
proof -
  let ?dup = "example_request (JObj [(''email'', JStr ''alice@example.com'')])"
  let ?new = "example_request (JObj [(''email'', JStr ''a@b.com'')])"
  have d1: "json ?dup = Inr (JObj [(''email'', JStr ''alice@example.com'')])"
    and n1: "json ?new = Inr (JObj [(''email'', JStr ''a@b.com'')])"
    by (simp_all add: example_request_def)
  have d2: "get_prop (JObj [(''email'', JStr ''alice@example.com'')]) ''email''
              = Inr (JStr ''alice@example.com'')"
    and n2: "get_prop (JObj [(''email'', JStr ''a@b.com'')]) ''email'' = Inr (JStr ''a@b.com'')"
    by simp_all
  have d3: "truthy (JStr ''alice@example.com'')" and n3: "truthy (JStr ''a@b.com'')" by simp_all
  have q: "email_query_error example_env = None" by (rule example_env_fields)
  have d4: "\<exists>p \<in> set (pages example_env). Email (properties p) = JStr ''alice@example.com''"
    by (simp add: example_env_fields example_page_def)
  have n4: "(\<forall>p \<in> set (pages example_env). Email (properties p) \<noteq> JStr ''a@b.com'')
            \<and> (\<exists>s. JStr ''a@b.com'' = JStr s)
            \<and> create_error example_env = None \<and> unit_draws (random example_env)"
    using example_draws by (simp add: example_env_fields example_page_def)
  from POST_notion_duplicate_or_enrolled [OF d1 d2 d3 q] d4
  have "status (fst (POST_notion example_env ?dup)) = 409"
    and "fst (snd (POST_notion example_env ?dup)) = example_env"
    by blast+
  moreover from POST_notion_duplicate_or_enrolled [OF n1 n2 n3 q] n4
  have "status (fst (POST_notion example_env ?new)) = 200"
    and "get_prop (body (fst (POST_notion example_env ?new))) ''code''
           = Inr (JStr (generateCode (random example_env) 8))"
    and "length (pages (fst (snd (POST_notion example_env ?new)))) = length (pages example_env) + 1"
    by blast+
  ultimately show ?thesis by (simp add: example_code example_env_fields(1))
qed

text \<open>The theorem of claim C4 at the example store: a \<^verbatim>\<open>referredBy\<close> that is the code of the
  stored record links to it; one that matches nothing, and one whose lookup throws, leave
  the relation empty; all three enrollments answer 200.\<close>

theorem POST_notion_referrer_soft_fail_witness:
  "status (fst (POST_notion example_env
      (example_request (JObj [(''email'', JStr ''a@b.com''), (''referredBy'', JStr ''ABCD2345'')])))) = 200
   \<and> Referrer (properties (last (pages (fst (snd (POST_notion example_env
      (example_request (JObj [(''email'', JStr ''a@b.com''), (''referredBy'', JStr ''ABCD2345'')])))))))) = [''page-1'']
   \<and> status (fst (POST_notion example_env
      (example_request (JObj [(''email'', JStr ''a@b.com''), (''referredBy'', JStr ''ZZZZ9999'')])))) = 200
   \<and> Referrer (properties (last (pages (fst (snd (POST_notion example_env
      (example_request (JObj [(''email'', JStr ''a@b.com''), (''referredBy'', JStr ''ZZZZ9999'')])))))))) = []
   \<and> status (fst (POST_notion (example_env\<lparr>code_query_error := Some (ErrorObj ''Error'' ''store unavailable'')\<rparr>)
      (example_request (JObj [(''email'', JStr ''a@b.com''), (''referredBy'', JStr ''ABCD2345'')])))) = 200
   \<and> Referrer (properties (last (pages (fst (snd (POST_notion
      (example_env\<lparr>code_query_error := Some (ErrorObj ''Error'' ''store unavailable'')\<rparr>)
      (example_request (JObj [(''email'', JStr ''a@b.com''), (''referredBy'', JStr ''ABCD2345'')])))))))) = []"
proof -
  let ?down = "example_env\<lparr>code_query_error := Some (ErrorObj ''Error'' ''store unavailable'')\<rparr>"
  let ?hit = "JObj [(''email'', JStr ''a@b.com''), (''referredBy'', JStr ''ABCD2345'')]"
  let ?miss = "JObj [(''email'', JStr ''a@b.com''), (''referredBy'', JStr ''ZZZZ9999'')]"
  have j: "json (example_request ?hit) = Inr ?hit" "json (example_request ?miss) = Inr ?miss"
    by (simp_all add: example_request_def)
  have e: "get_prop ?hit ''email'' = Inr (JStr ''a@b.com'')"
          "get_prop ?miss ''email'' = Inr (JStr ''a@b.com'')" by simp_all
  have ne: "''a@b.com'' \<noteq> []" by simp
  have r: "get_prop ?hit ''referredBy'' = Inr (JStr ''ABCD2345'')"
          "get_prop ?miss ''referredBy'' = Inr (JStr ''ZZZZ9999'')" by simp_all
  have t: "truthy (JStr ''ABCD2345'')" "truthy (JStr ''ZZZZ9999'')" by simp_all
  have q: "query_email example_env (JStr ''a@b.com'') = Inr []" by (rule example_no_duplicate)
  have q': "query_email ?down (JStr ''a@b.com'') = Inr []"
    by (simp add: query_email_def example_env_fields example_page_def)
  have c: "create_error example_env = None" "create_error ?down = None"
    by (simp_all add: example_env_fields)
  have found: "query_code example_env (JStr ''ABCD2345'') = Inr [example_page]"
    and pid: "page_id example_page = ''page-1''"
    and miss: "query_code example_env (JStr ''ZZZZ9999'') = Inr []"
    and thr: "query_code ?down (JStr ''ABCD2345'') = Inl (ErrorObj ''Error'' ''store unavailable'')"
    by (simp_all add: query_code_def example_env_fields example_page_def)
  from POST_notion_referrer_soft_fail [OF j(1) e(1) ne r(1) t(1) q c(1)] found pid
  have "status (fst (POST_notion example_env (example_request ?hit))) = 200"
    and "Referrer (properties (last (pages (fst (snd (POST_notion example_env (example_request ?hit))))))) = [''page-1'']"
    by auto
  moreover from POST_notion_referrer_soft_fail [OF j(2) e(2) ne r(2) t(2) q c(1)] miss
  have "status (fst (POST_notion example_env (example_request ?miss))) = 200"
    and "Referrer (properties (last (pages (fst (snd (POST_notion example_env (example_request ?miss))))))) = []"
    by auto
  moreover from POST_notion_referrer_soft_fail [OF j(1) e(1) ne r(1) t(1) q' c(2)] thr
  have "status (fst (POST_notion ?down (example_request ?hit))) = 200"
    and "Referrer (properties (last (pages (fst (snd (POST_notion ?down (example_request ?hit))))))) = []"
    by auto
  ultimately show ?thesis by blast
qed

text \<open>The theorem of claim C5 at the example store: without a \<^verbatim>\<open>firstname\<close> the record
  of a@b.com is named a; with one it carries that name.\<close>

theorem POST_notion_success_record_and_reply_witness:
  "status (fst (POST_notion example_env (example_request (JObj [(''email'', JStr ''a@b.com'')])))) = 200
   \<and> Name (properties (last (pages (fst (snd (POST_notion example_env
        (example_request (JObj [(''email'', JStr ''a@b.com'')])))))))) = JStr ''a''
   \<and> body (fst (POST_notion example_env (example_request (JObj [(''email'', JStr ''a@b.com'')])))) =
       JObj [(''success'', JBool True), (''message'', JStr ''Added to waitlist''),
             (''code'', JStr ''SSSSSSSS''),
             (''notionId'', JStr (page_id (last (pages (fst (snd (POST_notion example_env
                (example_request (JObj [(''email'', JStr ''a@b.com'')])))))))))]
   \<and> status (fst (POST_notion example_env
        (example_request (JObj [(''email'', JStr ''a@b.com''), (''firstname'', JStr ''Ann'')])))) = 200
   \<and> Name (properties (last (pages (fst (snd (POST_notion example_env
        (example_request (JObj [(''email'', JStr ''a@b.com''), (''firstname'', JStr ''Ann'')])))))))) = JStr ''Ann''"
proof -
  let ?b = "JObj [(''email'', JStr ''a@b.com'')]"
  let ?c = "JObj [(''email'', JStr ''a@b.com''), (''firstname'', JStr ''Ann'')]"
  have j: "json (example_request ?b) = Inr ?b" "json (example_request ?c) = Inr ?c"
    by (simp_all add: example_request_def)
  have e: "get_prop ?b ''email'' = Inr (JStr ''a@b.com'')"
          "get_prop ?c ''email'' = Inr (JStr ''a@b.com'')" by simp_all
  have f: "get_prop ?b ''firstname'' = Inr JUndefined"
          "get_prop ?c ''firstname'' = Inr (JStr ''Ann'')" by simp_all
  have r: "get_prop ?b ''referredBy'' = Inr JUndefined"
          "get_prop ?c ''referredBy'' = Inr JUndefined" by simp_all
  have t: "truthy (JStr ''a@b.com'')" by simp
  have nm: "entry_name JUndefined (JStr ''a@b.com'') = Inr (JStr ''a'')"
           "entry_name (JStr ''Ann'') (JStr ''a@b.com'') = Inr (JStr ''Ann'')"
    by (simp_all add: entry_name_string)
  have s1: "status (fst (POST_notion example_env (example_request ?b))) = 200"
    using POST_notion_fresh(1) [OF j(1) e(1) f(1) r(1) t example_no_duplicate]
      create_entry_created(1) [OF example_env_fields(4) nm(1)]
    by (simp add: added_to_waitlist_def)
  have s2: "status (fst (POST_notion example_env (example_request ?c))) = 200"
    using POST_notion_fresh(1) [OF j(2) e(2) f(2) r(2) t example_no_duplicate]
      create_entry_created(1) [OF example_env_fields(4) nm(2)]
    by (simp add: added_to_waitlist_def)
  from POST_notion_success_record_and_reply [OF j(1) e(1) f(1) s1]
  have "Name (properties (last (pages (fst (snd (POST_notion example_env (example_request ?b))))))) = JStr ''a''"
    and "body (fst (POST_notion example_env (example_request ?b))) =
       JObj [(''success'', JBool True), (''message'', JStr ''Added to waitlist''),
             (''code'', JStr ''SSSSSSSS''),
             (''notionId'', JStr (page_id (last (pages (fst (snd (POST_notion example_env
                (example_request ?b))))))))]"
    by (auto simp add: example_code)
  moreover from POST_notion_success_record_and_reply [OF j(2) e(2) f(2) s2]
  have "Name (properties (last (pages (fst (snd (POST_notion example_env (example_request ?c))))))) = JStr ''Ann''"
    by auto
  ultimately show ?thesis using s1 s2 by blast
qed

text \<open>The theorem of claim C10 at a request whose body ends too early to be JSON.\<close>

theorem POST_notion_unparseable_body_witness:
  "json example_broken_request = Inl (ErrorObj ''SyntaxError'' ''Unexpected end of JSON input'')
   \<and> status (fst (POST_notion example_env example_broken_request)) = 500
   \<and> body (fst (POST_notion example_env example_broken_request)) =
       JObj [(''error'', JStr ''Failed to save to Notion''),
             (''details'', JStr ''Unexpected end of JSON input''), (''success'', JBool False)]
   \<and> pages (fst (snd (POST_notion example_env example_broken_request))) = [example_page]
   \<and> downstream (snd (snd (POST_notion example_env example_broken_request))) = []"
proof -
  have h: "json example_broken_request = Inl (ErrorObj ''SyntaxError'' ''Unexpected end of JSON input'')"
    by (simp add: example_broken_request_def)
  note t = POST_notion_unparseable_body [OF h, of example_env]
  from t have "POST_notion example_env example_broken_request =
           (\<lparr>status = 500,
             body = JObj [(''error'', JStr ''Failed to save to Notion''),
                          (''details'', JStr ''Unexpected end of JSON input''),
                          (''success'', JBool False)]\<rparr>,
            example_env, [Log Lerror ''notion-api'' ''Error processing waitlist submission''])"
    by simp
  moreover have "pages example_env = [example_page]" by (simp add: example_env_def)
  moreover from t have "downstream (snd (snd (POST_notion example_env example_broken_request))) = []"
    by blast
  ultimately show ?thesis using h by simp
qed

section \<open>Properties of the mail endpoint\<close>

lemma filter_downstream:
  "(\<And>e. P e \<Longrightarrow> \<not> is_log e) \<Longrightarrow> filter P (downstream evs) = filter P evs"
  by (induction evs) (auto simp add: downstream_def)

lemma is_limit_downstream: "filter is_limit (downstream evs) = filter is_limit evs"
  by (rule filter_downstream) (auto elim: is_limit.elims)

lemma is_send_downstream: "filter is_send (downstream evs) = filter is_send evs"
  by (rule filter_downstream) (auto elim: is_send.elims)

lemma is_store_call_downstream: "filter is_store_call (downstream evs) = filter is_store_call evs"
  by (rule filter_downstream) (auto elim: is_store_call.elims)

lemma downstream_mail_catch: "downstream (snd (mail_catch e)) = []"
  by (simp add: downstream_def mail_catch_def)

lemma send_welcome_no_limit: "filter is_limit (snd (send_welcome env req)) = []"
  by (simp add: send_welcome_def mail_catch_def logger_debug_def Let_def
        split: sum.split option.split)

text \<open>
  Claim C6. The limiter's policy is two tokens per window "1 m". For every request,
  the first call that leaves the endpoint is the limiter's, keyed by the caller's
  address, and it is the only call of the limiter. Whenever the limiter answers without
  success, the endpoint answers HTTP 429, dispatches no email and makes no other call.
\<close>

theorem POST_mail_rate_limit_first:
  "slidingWindow_tokens = 2 \<and> slidingWindow_window = ''1 m''
   \<and> (\<exists>rest. downstream (snd (POST_mail env req))
               = RatelimitLimit slidingWindow_tokens slidingWindow_window (caller_ip req) # rest)
   \<and> filter is_limit (snd (POST_mail env req))
       = [RatelimitLimit slidingWindow_tokens slidingWindow_window (caller_ip req)]
   \<and> (\<forall>res. ratelimit_limit env (caller_ip req) = Inr res \<and> \<not> RatelimitResponse.success res
         \<longrightarrow> status (fst (POST_mail env req)) = 429
           \<and> filter is_send (snd (POST_mail env req)) = []
           \<and> downstream (snd (POST_mail env req))
               = [RatelimitLimit slidingWindow_tokens slidingWindow_window (caller_ip req)])"
proof -
  have d: "\<exists>rest. downstream (snd (POST_mail env req))
               = RatelimitLimit slidingWindow_tokens slidingWindow_window (caller_ip req) # rest"
    by (cases "ratelimit_limit env (caller_ip req)")
       (auto simp add: POST_mail_def Let_def downstream_append downstream_debug downstream_mail_catch
             split: prod.split, simp_all add: downstream_def)
  have l: "filter is_limit (snd (POST_mail env req))
       = [RatelimitLimit slidingWindow_tokens slidingWindow_window (caller_ip req)]"
    using send_welcome_no_limit [of env req]
    by (cases "ratelimit_limit env (caller_ip req)")
       (auto simp add: POST_mail_def Let_def mail_catch_def logger_debug_def split: prod.split)
  have r: "\<forall>res. ratelimit_limit env (caller_ip req) = Inr res \<and> \<not> RatelimitResponse.success res
         \<longrightarrow> status (fst (POST_mail env req)) = 429
           \<and> filter is_send (snd (POST_mail env req)) = []
           \<and> downstream (snd (POST_mail env req))
               = [RatelimitLimit slidingWindow_tokens slidingWindow_window (caller_ip req)]"
    by (simp add: POST_mail_def Let_def too_many_requests_def logger_debug_def downstream_def)
  show ?thesis using d l r by (simp add: slidingWindow_tokens_def slidingWindow_window_def)
qed

section \<open>A request without an email, at both endpoints\<close>

lemma notion_missing_email:
  assumes "json req = Inr (JObj kvs)" and "map_of kvs ''email'' = None"
  shows "POST_notion env req =
      (email_required, env,
       logger_debug env ''notion-api'' ''Processing waitlist submission''
         @ [Log Lwarn ''notion-api'' ''Missing email in request''])"
  using assms by (simp add: POST_notion_def)

lemma welcome_missing_email:
  assumes "json req = Inr (JObj kvs)" and "map_of kvs ''email'' = None"
  shows "send_welcome env req = (email_required, [Log Lwarn ''mail-api'' ''Missing email in request''])"
  using assms by (simp add: send_welcome_def)

lemma mail_missing_email_status:
  assumes "json req = Inr (JObj kvs)" and "map_of kvs ''email'' = None"
  shows "status (fst (POST_mail env req)) =
             (case ratelimit_limit env (caller_ip req) of
                Inl e \<Rightarrow> 500
              | Inr result \<Rightarrow> if RatelimitResponse.success result then 400 else 429)"
  by (simp add: POST_mail_def welcome_missing_email [OF assms] mail_catch_def
        too_many_requests_def email_required_def Let_def split: sum.split)

lemma mail_missing_email_calls:
  assumes "json req = Inr (JObj kvs)" and "map_of kvs ''email'' = None"
  shows "downstream (snd (POST_mail env req)) =
             [RatelimitLimit slidingWindow_tokens slidingWindow_window (caller_ip req)]"
  by (simp add: POST_mail_def welcome_missing_email [OF assms] mail_catch_def downstream_append
        downstream_debug Let_def split: sum.split) (simp add: downstream_def)

text \<open>
  Claim C2, as the code has it. For every request whose body is a JSON object without
  an email property: the enrollment endpoint answers HTTP 400, leaves its surroundings
  as they were and makes no downstream call at all. The mail endpoint has consulted
  the rate limiter before it looks at the body: the limiter's call is its one
  downstream call, no email is dispatched and the store is not touched, and the answer
  is HTTP 400 when the limiter lets the request through, 429 when it does not, and 500
  when the limiter's call throws.
\<close>

theorem missing_email_rejected:
  assumes "json req = Inr (JObj kvs)" and "map_of kvs ''email'' = None"
  shows "status (fst (POST_notion env req)) = 400
         \<and> fst (snd (POST_notion env req)) = env
         \<and> downstream (snd (snd (POST_notion env req))) = []
         \<and> status (fst (POST_mail env req)) =
             (case ratelimit_limit env (caller_ip req) of
                Inl e \<Rightarrow> 500
              | Inr result \<Rightarrow> if RatelimitResponse.success result then 400 else 429)
         \<and> downstream (snd (POST_mail env req)) =
             [RatelimitLimit slidingWindow_tokens slidingWindow_window (caller_ip req)]
         \<and> filter is_send (snd (POST_mail env req)) = []
         \<and> filter is_store_call (snd (POST_mail env req)) = []"
proof -
  note n = notion_missing_email [OF assms, of env]
  note c = mail_missing_email_calls [OF assms, of env]
  have "filter is_send (downstream (snd (POST_mail env req))) = []"
    and "filter is_store_call (downstream (snd (POST_mail env req))) = []"
    unfolding c by simp_all
  then have s: "filter is_send (snd (POST_mail env req)) = []"
    "filter is_store_call (snd (POST_mail env req)) = []"
    by (simp_all add: is_send_downstream is_store_call_downstream)
  have "downstream (snd (snd (POST_notion env req))) = []"
    by (simp add: n downstream_append downstream_debug) (simp add: downstream_def)
  with n c s mail_missing_email_status [OF assms, of env]
  show ?thesis by (simp add: email_required_def)
qed

section \<open>Properties of the form\<close>

text \<open>The derivative matcher decides the denotation.\<close>

inductive_cases matches_ZeroE: "matches Zero w"
inductive_cases matches_OneE: "matches One w"
inductive_cases matches_AtomE: "matches (Atom p) w"
inductive_cases matches_AltE: "matches (Alt r s) w"
inductive_cases matches_SeqE: "matches (Seq r s) w"

lemma nullable_matches: "nullable r \<longleftrightarrow> matches r []"
proof
  show "nullable r \<Longrightarrow> matches r []"
  proof (induction r)
    case (Seq r s)
    then have "matches r []" "matches s []" by simp_all
    from m_Seq [OF this] show ?case by simp
  qed (auto intro: matches.intros)
next
  have "matches r w \<Longrightarrow> w = [] \<Longrightarrow> nullable r" for w
    by (induction rule: matches.induct) auto
  then show "matches r [] \<Longrightarrow> nullable r" by blast
qed

lemma deriv_sound: "matches (deriv c r) w \<Longrightarrow> matches r (c # w)"
proof (induction r arbitrary: w)
  case Zero
  then show ?case by (auto elim: matches_ZeroE)
next
  case One
  then show ?case by (auto elim: matches_ZeroE)
next
  case (Atom p)
  then show ?case
    by (cases "p c") (auto elim: matches_ZeroE matches_OneE intro: matches.intros)
next
  case (Alt r s)
  then show ?case by (auto elim!: matches_AltE intro: matches.intros)
next
  case (Seq r s)
  have left: "matches (Seq (deriv c r) s) w \<Longrightarrow> matches (Seq r s) (c # w)"
  proof (erule matches_SeqE)
    fix u v assume "w = u @ v" "matches (deriv c r) u" "matches s v"
    with Seq.IH(1) have "matches r (c # u)" by blast
    from m_Seq [OF this \<open>matches s v\<close>] \<open>w = u @ v\<close> show ?thesis by simp
  qed
  have right: "nullable r \<Longrightarrow> matches (deriv c s) w \<Longrightarrow> matches (Seq r s) (c # w)"
  proof -
    assume "nullable r" "matches (deriv c s) w"
    then have "matches r []" "matches s (c # w)"
      using Seq.IH(2) by (simp_all add: nullable_matches)
    from m_Seq [OF this] show ?thesis by simp
  qed
  from Seq.prems show ?case
    by (cases "nullable r") (auto elim!: matches_AltE intro: left right)
next
  case (Star r)
  from Star.prems have "matches (Seq (deriv c r) (Star r)) w" by simp
  then show ?case
  proof (rule matches_SeqE)
    fix u v assume "w = u @ v" "matches (deriv c r) u" "matches (Star r) v"
    with Star.IH have "matches r (c # u)" by blast
    from m_StarStep [OF this \<open>matches (Star r) v\<close>] \<open>w = u @ v\<close> show ?thesis by simp
  qed
qed

lemma deriv_complete: "matches r x \<Longrightarrow> x = c # w \<Longrightarrow> matches (deriv c r) w"
proof (induction arbitrary: w rule: matches.induct)
  case m_One
  then show ?case by simp
next
  case (m_Atom p d)
  then show ?case by (auto intro: matches.intros)
next
  case (m_AltL r x s)
  then show ?case by (auto intro: matches.intros)
next
  case (m_AltR s x r)
  then show ?case by (auto intro: matches.intros)
next
  case (m_Seq r u s v)
  show ?case
  proof (cases u)
    case Nil
    with m_Seq have "nullable r" "matches (deriv c s) w"
      by (auto simp add: nullable_matches)
    then show ?thesis by (auto intro: matches.intros)
  next
    case (Cons d u')
    with m_Seq.prems have "d = c" "w = u' @ v" by simp_all
    with Cons m_Seq.IH(1) have "matches (deriv c r) u'" by simp
    from matches.m_Seq [OF this \<open>matches s v\<close>] \<open>w = u' @ v\<close>
    show ?thesis by (auto intro: matches.intros)
  qed
next
  case (m_StarNil r)
  then show ?case by simp
next
  case (m_StarStep r u v)
  show ?case
  proof (cases u)
    case Nil
    with m_StarStep show ?thesis by simp
  next
    case (Cons d u')
    with m_StarStep.prems have "d = c" "w = u' @ v" by simp_all
    with Cons m_StarStep.IH(1) have "matches (deriv c r) u'" by simp
    from m_Seq [OF this \<open>matches (Star r) v\<close>] \<open>w = u' @ v\<close>
    show ?thesis by simp
  qed
qed

lemma regex_test_matches: "regex_test r w \<longleftrightarrow> matches r w"
proof (induction w arbitrary: r)
  case Nil
  show ?case by (simp add: nullable_matches)
next
  case (Cons c w)
  show ?case using Cons deriv_sound deriv_complete by auto
qed

lemma matches_Seq_iff:
  "matches (Seq r s) w \<longleftrightarrow> (\<exists>u v. w = u @ v \<and> matches r u \<and> matches s v)"
proof
  assume "matches (Seq r s) w"
  then show "\<exists>u v. w = u @ v \<and> matches r u \<and> matches s v"
    by (rule matches_SeqE) blast
next
  assume "\<exists>u v. w = u @ v \<and> matches r u \<and> matches s v"
  then show "matches (Seq r s) w" by (auto intro: m_Seq)
qed

lemma matches_Atom_iff: "matches (Atom p) w \<longleftrightarrow> (\<exists>c. w = [c] \<and> p c)"
proof
  assume "matches (Atom p) w"
  then show "\<exists>c. w = [c] \<and> p c" by (rule matches_AtomE) blast
next
  assume "\<exists>c. w = [c] \<and> p c"
  then show "matches (Atom p) w" by (auto intro: m_Atom)
qed

lemma matches_Star_Atom: "matches (Star (Atom p)) w \<longleftrightarrow> (\<forall>c \<in> set w. p c)"
proof
  have "matches r w \<Longrightarrow> r = Star (Atom p) \<Longrightarrow> \<forall>c \<in> set w. p c" for r
    by (induction rule: matches.induct) (auto simp add: matches_Atom_iff)
  then show "matches (Star (Atom p)) w \<Longrightarrow> \<forall>c \<in> set w. p c" by blast
next
  show "\<forall>c \<in> set w. p c \<Longrightarrow> matches (Star (Atom p)) w"
  proof (induction w)
    case Nil
    show ?case by (rule m_StarNil)
  next
    case (Cons c w)
    then have "matches (Atom p) [c]" "matches (Star (Atom p)) w"
      by (auto intro: matches.intros)
    from m_StarStep [OF this] show ?case by simp
  qed
qed

lemma matches_Plus_Atom: "matches (Plus (Atom p)) w \<longleftrightarrow> w \<noteq> [] \<and> (\<forall>c \<in> set w. p c)"
proof (cases w)
  case Nil
  then show ?thesis by (simp add: Plus_def matches_Seq_iff matches_Atom_iff)
next
  case (Cons a as)
  have "matches (Plus (Atom p)) (a # as) \<longleftrightarrow> p a \<and> (\<forall>c \<in> set as. p c)"
  proof
    assume "matches (Plus (Atom p)) (a # as)"
    then obtain u v where "a # as = u @ v" "matches (Atom p) u" "matches (Star (Atom p)) v"
      unfolding Plus_def matches_Seq_iff by blast
    then show "p a \<and> (\<forall>c \<in> set as. p c)"
      by (auto simp add: matches_Atom_iff matches_Star_Atom)
  next
    assume "p a \<and> (\<forall>c \<in> set as. p c)"
    then have "matches (Atom p) [a]" "matches (Star (Atom p)) as"
      by (simp_all add: matches_Atom_iff matches_Star_Atom)
    from m_Seq [OF this] show "matches (Plus (Atom p)) (a # as)" by (simp add: Plus_def)
  qed
  with Cons show ?thesis by simp
qed

text \<open>The pattern of \<open>isValidEmail\<close> accepts exactly the strings of the shape
  local@domain.tld: three non-empty parts free of white space and at signs, the first
  two separated by an at sign and the last two by a dot.\<close>

lemma isValidEmail_shape:
  "isValidEmail s \<longleftrightarrow>
     (\<exists>l d t. s = l @ ''@'' @ d @ ''.'' @ t \<and> l \<noteq> [] \<and> d \<noteq> [] \<and> t \<noteq> []
        \<and> (\<forall>c \<in> set (l @ d @ t). \<not> is_space c \<and> c \<noteq> CHR ''@''))"
proof
  assume "isValidEmail s"
  then have "matches emailRegex s" by (simp add: isValidEmail_def regex_test_matches)
  then obtain l r1 where 1: "s = l @ r1" "matches (Plus (Atom not_space_or_at)) l"
      and "matches (Seq (Atom (\<lambda>c. c = CHR ''@''))
             (Seq (Plus (Atom not_space_or_at))
               (Seq (Atom (\<lambda>c. c = CHR ''.'')) (Plus (Atom not_space_or_at))))) r1"
    unfolding emailRegex_def by (auto elim: matches_SeqE)
  then obtain a r2 where 2: "r1 = a @ r2" "matches (Atom (\<lambda>c. c = CHR ''@'')) a"
      and "matches (Seq (Plus (Atom not_space_or_at))
               (Seq (Atom (\<lambda>c. c = CHR ''.'')) (Plus (Atom not_space_or_at)))) r2"
    by (auto elim: matches_SeqE)
  then obtain d r3 where 3: "r2 = d @ r3" "matches (Plus (Atom not_space_or_at)) d"
      and "matches (Seq (Atom (\<lambda>c. c = CHR ''.'')) (Plus (Atom not_space_or_at))) r3"
    by (auto elim: matches_SeqE)
  then obtain dot t where 4: "r3 = dot @ t" "matches (Atom (\<lambda>c. c = CHR ''.'')) dot"
      "matches (Plus (Atom not_space_or_at)) t"
    by (auto elim: matches_SeqE)
  from 2(2) 4(2) have "a = ''@''" "dot = ''.''" by (auto simp add: matches_Atom_iff)
  with 1(1) 2(1) 3(1) 4(1) have "s = l @ ''@'' @ d @ ''.'' @ t" by simp
  moreover from 1(2) 3(2) 4(3)
  have "l \<noteq> []" "d \<noteq> []" "t \<noteq> []" "\<forall>c \<in> set (l @ d @ t). \<not> is_space c \<and> c \<noteq> CHR ''@''"
    by (auto simp add: matches_Plus_Atom not_space_or_at_def)
  ultimately show "\<exists>l d t. s = l @ ''@'' @ d @ ''.'' @ t \<and> l \<noteq> [] \<and> d \<noteq> [] \<and> t \<noteq> []
        \<and> (\<forall>c \<in> set (l @ d @ t). \<not> is_space c \<and> c \<noteq> CHR ''@'')" by blast
next
  assume "\<exists>l d t. s = l @ ''@'' @ d @ ''.'' @ t \<and> l \<noteq> [] \<and> d \<noteq> [] \<and> t \<noteq> []
        \<and> (\<forall>c \<in> set (l @ d @ t). \<not> is_space c \<and> c \<noteq> CHR ''@'')"
  then obtain l d t where s: "s = l @ ''@'' @ d @ ''.'' @ t"
    and p: "matches (Plus (Atom not_space_or_at)) l" "matches (Plus (Atom not_space_or_at)) d"
           "matches (Plus (Atom not_space_or_at)) t"
    by (auto simp add: matches_Plus_Atom not_space_or_at_def)
  have a: "matches (Atom (\<lambda>c. c = CHR ''@'')) ''@''" "matches (Atom (\<lambda>c. c = CHR ''.'')) ''.''"
    by (simp_all add: matches_Atom_iff)
  from m_Seq [OF p(1) m_Seq [OF a(1) m_Seq [OF p(2) m_Seq [OF a(2) p(3)]]]]
  have "matches emailRegex s" by (simp add: emailRegex_def s)
  then show "isValidEmail s" by (simp add: isValidEmail_def regex_test_matches)
qed

lemma isValidEmail_empty: "\<not> isValidEmail []"
  by (simp add: isValidEmail_def emailRegex_def Plus_def)

lemma is_fetch_debug: "filter is_fetch (client_debug env src msg) = []"
  by (simp add: client_debug_def)

text \<open>
  Claim C7. At step 1, submitting an email that fails the pattern leaves the state as
  it was, at step 1, shows one error toast and issues no network call; submitting an
  email that passes the pattern changes nothing but the step, which becomes 2, and
  issues no network call either.
\<close>

theorem handleSubmit_step1:
  assumes "step st = 1"
  shows "(\<not> isValidEmail (email (formData st)) \<longrightarrow>
            fst (handleSubmit env st) = st
          \<and> step (fst (handleSubmit env st)) = 1
          \<and> toasts (snd (handleSubmit env st)) = [ToastError (JStr ''Please enter a valid email address'')]
          \<and> filter is_fetch (snd (handleSubmit env st)) = [])
       \<and> (isValidEmail (email (formData st)) \<longrightarrow>
            fst (handleSubmit env st) = st\<lparr>step := 2\<rparr>
          \<and> step (fst (handleSubmit env st)) = 2
          \<and> filter is_fetch (snd (handleSubmit env st)) = [])"
proof (intro conjI impI)
  assume bad: "\<not> isValidEmail (email (formData st))"
  then have h: "handleSubmit env st =
      (st, [UiLog Lwarn ''form'' ''Invalid email submitted'',
            ToastError (JStr ''Please enter a valid email address'')])"
    using assms by (simp add: handleSubmit_def)
  show "fst (handleSubmit env st) = st" by (simp add: h)
  show "step (fst (handleSubmit env st)) = 1" by (simp add: h assms)
  show "toasts (snd (handleSubmit env st)) = [ToastError (JStr ''Please enter a valid email address'')]"
    by (simp add: h toasts_def)
  show "filter is_fetch (snd (handleSubmit env st)) = []" by (simp add: h)
next
  assume good: "isValidEmail (email (formData st))"
  then have ne: "email (formData st) \<noteq> []" using isValidEmail_empty by auto
  have h: "handleSubmit env st =
      (st\<lparr>step := 2\<rparr>, client_debug env ''form'' ''Step 1 completed, moving to step 2'')"
    using assms good ne by (simp add: handleSubmit_def)
  show "fst (handleSubmit env st) = st\<lparr>step := 2\<rparr>" by (simp add: h)
  show "step (fst (handleSubmit env st)) = 2" by (simp add: h)
  show "filter is_fetch (snd (handleSubmit env st)) = []" by (simp add: h is_fetch_debug)
qed

lemma payload_loading [simp]: "payload env (st\<lparr>loading := x\<rparr>) = payload env st"
  by (simp add: payload_def)

lemma is_fetch_catch: "filter is_fetch (submit_catch e) = []"
  by (cases e) (simp_all add: submit_catch_def)

text \<open>
  Claim C8. In a step-2 submission whose mail call fails, by a network failure or by
  an answer outside 2xx, the only network call issued is the one to /api/mail: the
  call to /api/notion is never issued.
\<close>

theorem handleSubmit_mail_failure_blocks_enrollment:
  assumes "step st \<noteq> 1"
    and "mail_fetch env = NetworkFailure \<or> (\<exists>s b. mail_fetch env = Responded s b \<and> \<not> ok s)"
  shows "filter is_fetch (snd (handleSubmit env st)) = [Fetch ''/api/mail'' (payload env st)]
       \<and> (\<forall>p. Fetch ''/api/notion'' p \<notin> set (snd (handleSubmit env st)))"
proof -
  have f: "filter is_fetch (snd (handleSubmit env st)) = [Fetch ''/api/mail'' (payload env st)]"
    using assms
    by (auto simp add: handleSubmit_def submit_try_def Let_def is_fetch_debug is_fetch_catch)
  have "\<forall>p. Fetch ''/api/notion'' p \<notin> set (filter is_fetch (snd (handleSubmit env st)))"
    unfolding f by simp
  then have "\<forall>p. Fetch ''/api/notion'' p \<notin> set (snd (handleSubmit env st))"
    by simp
  with f show ?thesis by blast
qed





lemma try_mail_text_lost:
  assumes "mail_fetch env = Responded s b" and "\<not> ok s" and "mail_text_rejects env"
  shows "\<exists>t. submit_try env st = (Some text_rejected, st, t) \<and> toasts t = []"
  using assms by (simp add: submit_try_def Let_def toasts_def client_debug_def)












text \<open>A submission that goes through shows the success toast and sets \<^verbatim>\<open>success\<close>: the
  failed submissions are exactly the others.\<close>

lemma succeeded_submission_toast:
  assumes "step st \<noteq> 1" and "submission_succeeds env"
  shows "toasts (snd (handleSubmit env st)) = [ToastSuccess ''You're on the waitlist!'']
       \<and> success (fst (handleSubmit env st))"
proof -
  from assms(2) obtain s b ns v where
    m: "mail_fetch env = Responded s b" "ok s"
    and n: "notion_fetch env = Responded ns (Some v)" "ok ns" "v \<noteq> JNull" "v \<noteq> JUndefined"
    by (auto simp add: submission_succeeds_def mail_passed_def split: fetch_result.splits)
  from get_prop_defined [OF n(3,4)] obtain c where c: "get_prop v ''code'' = Inr c" by blast
  show ?thesis
    using assms(1) m n(1,2) c
    by (simp add: handleSubmit_def submit_try_def Let_def toasts_def client_debug_def)
qed


text \<open>Every answer of the enrollment endpoint of this repository has an object as its
  body, so it can be read, and its 409 is \<open>already_on_waitlist\<close>.\<close>

lemma create_entry_status:
  "status (fst (create_entry env eml fname refBy)) \<noteq> 409
   \<and> (\<exists>kvs. body (fst (create_entry env eml fname refBy)) = JObj kvs)"
  by (simp add: create_entry_def pages_create_def Let_def notion_catch_def added_to_waitlist_def
        split: prod.split sum.split option.split)

lemma POST_notion_reply_shape:
  "(status (fst (POST_notion env req)) = 409 \<longrightarrow> fst (POST_notion env req) = already_on_waitlist)
   \<and> (\<exists>kvs. body (fst (POST_notion env req)) = JObj kvs)"
  using create_entry_status
  by (auto simp add: POST_notion_def Let_def notion_catch_def email_required_def
        already_on_waitlist_def case_prod_unfold split: sum.split)


section \<open>The mail endpoint on the example surroundings\<close>

lemma example_request_ip: "caller_ip (example_request b) = ''127.0.0.1''"
  by (simp add: caller_ip_def example_request_def)

lemma example_proxied_ip: "caller_ip example_proxied_request = ''203.0.113.7''"
  by (simp add: caller_ip_def example_proxied_request_def trim_def is_space_def)

text \<open>The theorem of claim C6 at a request that came through a proxy, with a limiter
  that refuses: the limiter is asked about the first forwarded address, trimmed, the
  answer is 429 and no email leaves.\<close>

theorem POST_mail_rate_limit_first_witness:
  "ratelimit_limit example_denying_env (caller_ip example_proxied_request)
     = Inr \<lparr>RatelimitResponse.success = False, limit = 2, remaining = 0\<rparr>
   \<and> status (fst (POST_mail example_denying_env example_proxied_request)) = 429
   \<and> filter is_send (snd (POST_mail example_denying_env example_proxied_request)) = []
   \<and> downstream (snd (POST_mail example_denying_env example_proxied_request))
       = [RatelimitLimit 2 ''1 m'' ''203.0.113.7'']"
proof -
  have h: "ratelimit_limit example_denying_env (caller_ip example_proxied_request)
             = Inr \<lparr>RatelimitResponse.success = False, limit = 2, remaining = 0\<rparr>"
    by (simp add: example_denying_env_def)
  have d: "\<not> RatelimitResponse.success \<lparr>RatelimitResponse.success = False, limit = 2, remaining = 0\<rparr>"
    by simp
  from POST_mail_rate_limit_first [of example_denying_env example_proxied_request] h d
  have "status (fst (POST_mail example_denying_env example_proxied_request)) = 429"
    and "filter is_send (snd (POST_mail example_denying_env example_proxied_request)) = []"
    and "downstream (snd (POST_mail example_denying_env example_proxied_request))
       = [RatelimitLimit 2 ''1 m'' ''203.0.113.7'']"
    by (auto simp add: example_proxied_ip)
  with h show ?thesis by blast
qed

text \<open>The theorem of claim C2 at a body that holds only a name: 400 from the enrollment
  endpoint with no downstream call; from the mail endpoint 400 when the limiter allows
  and 429 when it refuses, with the limiter's call made in both cases.\<close>

theorem missing_email_rejected_witness:
  "json (example_request (JObj [(''name'', JStr ''Ann'')])) = Inr (JObj [(''name'', JStr ''Ann'')])
   \<and> map_of [(''name'', JStr ''Ann'')] ''email'' = None
   \<and> status (fst (POST_notion example_env (example_request (JObj [(''name'', JStr ''Ann'')])))) = 400
   \<and> downstream (snd (snd (POST_notion example_env (example_request (JObj [(''name'', JStr ''Ann'')]))))) = []
   \<and> status (fst (POST_mail example_env (example_request (JObj [(''name'', JStr ''Ann'')])))) = 400
   \<and> status (fst (POST_mail example_denying_env (example_request (JObj [(''name'', JStr ''Ann'')])))) = 429
   \<and> downstream (snd (POST_mail example_env (example_request (JObj [(''name'', JStr ''Ann'')]))))
       = [RatelimitLimit 2 ''1 m'' ''127.0.0.1'']"
proof -
  let ?req = "example_request (JObj [(''name'', JStr ''Ann'')])"
  have j: "json ?req = Inr (JObj [(''name'', JStr ''Ann'')])" by (simp add: example_request_def)
  have m: "map_of [(''name'', JStr ''Ann'')] ''email'' = None" by simp
  have a: "ratelimit_limit example_env (caller_ip ?req)
             = Inr \<lparr>RatelimitResponse.success = True, limit = 2, remaining = 1\<rparr>"
    by (simp add: example_env_def)
  have d: "ratelimit_limit example_denying_env (caller_ip ?req)
             = Inr \<lparr>RatelimitResponse.success = False, limit = 2, remaining = 0\<rparr>"
    by (simp add: example_denying_env_def)
  from missing_email_rejected [OF j m, of example_env] a
  have "status (fst (POST_notion example_env ?req)) = 400"
    and "downstream (snd (snd (POST_notion example_env ?req))) = []"
    and "status (fst (POST_mail example_env ?req)) = 400"
    and "downstream (snd (POST_mail example_env ?req)) = [RatelimitLimit 2 ''1 m'' ''127.0.0.1'']"
    by (simp_all add: example_request_ip slidingWindow_tokens_def slidingWindow_window_def)
  moreover from missing_email_rejected [OF j m, of example_denying_env] d
  have "status (fst (POST_mail example_denying_env ?req)) = 429"
    by simp
  ultimately show ?thesis using j m by blast
qed

text \<open>Claim C2 as worded fails at the mail endpoint for the same body: although the
  email is missing, the rate limiter is called (and counts the request), and with a
  limiter that refuses the answer is not 400.\<close>

theorem missing_email_counterexample:
  "json (example_request (JObj [(''name'', JStr ''Ann'')])) = Inr (JObj [(''name'', JStr ''Ann'')])
   \<and> map_of [(''name'', JStr ''Ann'')] ''email'' = None
   \<and> filter is_limit (snd (POST_mail example_env (example_request (JObj [(''name'', JStr ''Ann'')]))))
       = [RatelimitLimit 2 ''1 m'' ''127.0.0.1'']
   \<and> status (fst (POST_mail example_denying_env (example_request (JObj [(''name'', JStr ''Ann'')]))))
       \<noteq> 400"
proof -
  let ?req = "example_request (JObj [(''name'', JStr ''Ann'')])"
  have j: "json ?req = Inr (JObj [(''name'', JStr ''Ann'')])" by (simp add: example_request_def)
  have m: "map_of [(''name'', JStr ''Ann'')] ''email'' = None" by simp
  have d: "ratelimit_limit example_denying_env (caller_ip ?req)
             = Inr \<lparr>RatelimitResponse.success = False, limit = 2, remaining = 0\<rparr>"
    by (simp add: example_denying_env_def)
  have "downstream (snd (POST_mail example_env ?req)) = [RatelimitLimit 2 ''1 m'' ''127.0.0.1'']"
    using mail_missing_email_calls [OF j m, of example_env]
    by (simp add: example_request_ip slidingWindow_tokens_def slidingWindow_window_def)
  then have "filter is_limit (downstream (snd (POST_mail example_env ?req)))
               = [RatelimitLimit 2 ''1 m'' ''127.0.0.1'']" by simp
  moreover have "filter is_limit (downstream (snd (POST_mail example_env ?req)))
               = filter is_limit (snd (POST_mail example_env ?req))"
    by (rule is_limit_downstream)
  moreover have "status (fst (POST_mail example_denying_env ?req)) = 429"
    using mail_missing_email_status [OF j m, of example_denying_env] d by simp
  ultimately show ?thesis using j m by simp
qed

section \<open>The form on the example surroundings\<close>

lemma foo_invalid: "\<not> isValidEmail ''foo''"
  by (simp add: isValidEmail_def emailRegex_def Plus_def not_space_or_at_def is_space_def)

lemma ab_valid: "isValidEmail ''a@b.com''"
  by (simp add: isValidEmail_def emailRegex_def Plus_def not_space_or_at_def is_space_def)

text \<open>The theorem of claim C7 at the emails foo and a@b.com.\<close>

theorem handleSubmit_step1_witness:
  "\<not> isValidEmail ''foo''
   \<and> fst (handleSubmit example_client
            (example_form\<lparr>step := 1, formData := \<lparr>email = ''foo'', name = []\<rparr>\<rparr>))
       = example_form\<lparr>step := 1, formData := \<lparr>email = ''foo'', name = []\<rparr>\<rparr>
   \<and> filter is_fetch (snd (handleSubmit example_client
            (example_form\<lparr>step := 1, formData := \<lparr>email = ''foo'', name = []\<rparr>\<rparr>))) = []
   \<and> isValidEmail ''a@b.com''
   \<and> step (fst (handleSubmit example_client (example_form\<lparr>step := 1\<rparr>))) = 2
   \<and> filter is_fetch (snd (handleSubmit example_client (example_form\<lparr>step := 1\<rparr>))) = []"
proof -
  let ?foo = "example_form\<lparr>step := 1, formData := \<lparr>email = ''foo'', name = []\<rparr>\<rparr>"
  let ?ab = "example_form\<lparr>step := 1\<rparr>"
  have s: "step ?foo = 1" "step ?ab = 1" by simp_all
  have e: "email (formData ?foo) = ''foo''" "email (formData ?ab) = ''a@b.com''"
    by (simp_all add: example_form_def)
  from handleSubmit_step1 [OF s(1), of example_client] foo_invalid e(1)
  have "fst (handleSubmit example_client ?foo) = ?foo"
    and "filter is_fetch (snd (handleSubmit example_client ?foo)) = []"
    by simp_all
  moreover from handleSubmit_step1 [OF s(2), of example_client] ab_valid e(2)
  have "step (fst (handleSubmit example_client ?ab)) = 2"
    and "filter is_fetch (snd (handleSubmit example_client ?ab)) = []"
    by simp_all
  ultimately show ?thesis using foo_invalid ab_valid by blast
qed

lemma example_payload:
  "payload (example_client\<lparr>mail_fetch := m\<rparr>) example_form
     = JObj [(''firstname'', JStr ''a''), (''email'', JStr ''a@b.com'')]"
  by (simp add: payload_def example_client_def example_form_def)

text \<open>The theorem of claim C8 at a mail call that fails on the network and at one that
  is answered with 500.\<close>

theorem handleSubmit_mail_failure_blocks_enrollment_witness:
  "filter is_fetch (snd (handleSubmit (example_client\<lparr>mail_fetch := NetworkFailure\<rparr>) example_form))
     = [Fetch ''/api/mail'' (JObj [(''firstname'', JStr ''a''), (''email'', JStr ''a@b.com'')])]
   \<and> \<not> ok 500
   \<and> filter is_fetch (snd (handleSubmit
        (example_client\<lparr>mail_fetch := Responded 500 (Some (body (send_failed ''Failed to send email'')))\<rparr>)
        example_form))
     = [Fetch ''/api/mail'' (JObj [(''firstname'', JStr ''a''), (''email'', JStr ''a@b.com'')])]"
proof -
  let ?down = "example_client\<lparr>mail_fetch := NetworkFailure\<rparr>"
  let ?err = "example_client\<lparr>mail_fetch := Responded 500 (Some (body (send_failed ''Failed to send email'')))\<rparr>"
  have s: "step example_form \<noteq> 1" by (simp add: example_form_def)
  have n: "\<not> ok 500" by (simp add: ok_def)
  have d: "mail_fetch ?down = NetworkFailure \<or> (\<exists>s b. mail_fetch ?down = Responded s b \<and> \<not> ok s)"
    by simp
  have e: "mail_fetch ?err = NetworkFailure \<or> (\<exists>s b. mail_fetch ?err = Responded s b \<and> \<not> ok s)"
    using n by simp
  from handleSubmit_mail_failure_blocks_enrollment [OF s d]
  have "filter is_fetch (snd (handleSubmit ?down example_form))
     = [Fetch ''/api/mail'' (JObj [(''firstname'', JStr ''a''), (''email'', JStr ''a@b.com'')])]"
    by (simp add: example_payload)
  moreover from handleSubmit_mail_failure_blocks_enrollment [OF s e]
  have "filter is_fetch (snd (handleSubmit ?err example_form))
     = [Fetch ''/api/mail'' (JObj [(''firstname'', JStr ''a''), (''email'', JStr ''a@b.com'')])]"
    by (simp add: example_payload)
  ultimately show ?thesis using n by blast
qed






end
